theory Spec2Isabelle
  imports Main
begin

section \<open>JavaScript values and the operations the handlers use\<close>

text \<open>
  The invoice document is whatever \<^verbatim>\<open>JSON.parse\<close> made of the response body, so a
  value is one of the JSON shapes, or \<^verbatim>\<open>undefined\<close> (what reading a missing property
  gives). Numbers are the integers of the document. An object is the list of its
  properties; a key is looked up from the front. A string is a list of 8-bit code units,
  the characters U+0000 to U+00FF.
\<close>

datatype jsval =
    JUndefined
  | JNull
  | JBool bool
  | JNum int
  | JStr string
  | JArr "jsval list"
  | JObj "(string \<times> jsval) list"

text \<open>What a \<^verbatim>\<open>try\<close> block can catch: a \<^verbatim>\<open>TypeError\<close> of the language; the
  rejection of \<^verbatim>\<open>axios.get\<close>, which carries \<^verbatim>\<open>response.status\<close> when the server
  answered and nothing when the request itself failed (network error, timeout); the
  rejection of a call to the chat platform.\<close>

datatype thrown = TypeError | AxiosError "nat option" | DiscordAPIError

definition bindE :: "thrown + 'a \<Rightarrow> ('a \<Rightarrow> thrown + 'b) \<Rightarrow> thrown + 'b" where
  "bindE m f = (case m of Inl e \<Rightarrow> Inl e | Inr v \<Rightarrow> f v)"

text \<open>\<^verbatim>\<open>if (c) return r; rest\<close> where \<^verbatim>\<open>c\<close> computes \<^verbatim>\<open>r\<close>: the first
  computation decides when it yields a value, the rest runs otherwise.\<close>

definition first_of ::
  "thrown + 'a option \<Rightarrow> thrown + 'a option \<Rightarrow> thrown + 'a option" where
  "first_of m rest =
     (case m of Inl e \<Rightarrow> Inl e | Inr (Some r) \<Rightarrow> Inr (Some r) | Inr None \<Rightarrow> rest)"

text \<open>Truthiness: \<^verbatim>\<open>undefined\<close>, \<^verbatim>\<open>null\<close>, \<^verbatim>\<open>false\<close>, \<^verbatim>\<open>0\<close> and
  \<^verbatim>\<open>""\<close> are falsy.\<close>

fun truthy :: "jsval \<Rightarrow> bool" where
  "truthy JUndefined = False"
| "truthy JNull = False"
| "truthy (JBool b) = b"
| "truthy (JNum n) = (n \<noteq> 0)"
| "truthy (JStr s) = (s \<noteq> [])"
| "truthy (JArr xs) = True"
| "truthy (JObj kvs) = True"

text \<open>\<^verbatim>\<open>typeof v === 'object'\<close> holds of \<^verbatim>\<open>null\<close>, arrays and objects.\<close>

fun is_object :: "jsval \<Rightarrow> bool" where
  "is_object JNull = True"
| "is_object (JArr xs) = True"
| "is_object (JObj kvs) = True"
| "is_object v = False"

text \<open>
  The property read \<^verbatim>\<open>v.k\<close> (or \<^verbatim>\<open>v[k]\<close>). On \<^verbatim>\<open>undefined\<close> and \<^verbatim>\<open>null\<close> it
  throws. The keys read by the handlers are \<^verbatim>\<open>status\<close>, \<^verbatim>\<open>history\<close>, \<^verbatim>\<open>state\<close>,
  \<^verbatim>\<open>payment_status\<close>, \<^verbatim>\<open>status_text\<close>, \<^verbatim>\<open>items\<close>, \<^verbatim>\<open>data\<close>, \<^verbatim>\<open>product_id\<close>,
  \<^verbatim>\<open>id\<close> and \<^verbatim>\<open>sku\<close>: none of them is a property of a string, a number, a boolean
  or an array, nor inherited by an object, so there the read gives \<^verbatim>\<open>undefined\<close>.
\<close>

fun get_prop :: "jsval \<Rightarrow> string \<Rightarrow> thrown + jsval" where
  "get_prop JUndefined k = Inl TypeError"
| "get_prop JNull k = Inl TypeError"
| "get_prop (JObj kvs) k = Inr (case map_of kvs k of Some v \<Rightarrow> v | None \<Rightarrow> JUndefined)"
| "get_prop v k = Inr JUndefined"

text \<open>\<^verbatim>\<open>String.prototype.trim\<close>: tab, line feed, vertical tab, form feed, carriage
  return, space and no-break space are stripped at both ends. These are all the white
  space and line terminators among the 8-bit code units; U+FEFF and the other Unicode
  spaces lie beyond them.\<close>

definition is_space :: "char \<Rightarrow> bool" where
  "is_space c = (c \<in> {CHR 0x09, CHR 0x0A, CHR 0x0B, CHR 0x0C, CHR 0x0D, CHR 0x20, CHR 0xA0})"

definition trim :: "string \<Rightarrow> string" where
  "trim s = rev (dropWhile is_space (rev (dropWhile is_space s)))"

text \<open>The guard \<^verbatim>\<open>typeof x === 'string' && x.trim()\<close> together with the value
  \<^verbatim>\<open>x.trim()\<close> returned under it.\<close>

fun trimmed_string :: "jsval \<Rightarrow> string option" where
  "trimmed_string (JStr s) = (if trim s \<noteq> [] then Some (trim s) else None)"
| "trimmed_string v = None"

section \<open>extractInvoiceStatus\<close>

text \<open>The body shared by the three loops:
  \<^verbatim>\<open>if (h && typeof h.status === 'string' && h.status.trim()) return h.status.trim();\<close>
  run over the elements in the order given.\<close>

fun scan_status :: "jsval list \<Rightarrow> thrown + string option" where
  "scan_status [] = Inr None"
| "scan_status (h # hs) =
     first_of (if truthy h then bindE (get_prop h ''status'') (\<lambda>st. Inr (trimmed_string st))
               else Inr None)
              (scan_status hs)"

text \<open>\<^verbatim>\<open>Array.isArray(v) && v.length > 0\<close> followed by the loop from the last index
  down to 0.\<close>

fun scan_history :: "jsval \<Rightarrow> thrown + string option" where
  "scan_history (JArr hs) = (if length hs > 0 then scan_status (rev hs) else Inr None)"
| "scan_history v = Inr None"

text \<open>\<^verbatim>\<open>v && typeof v === 'object' && typeof v.status === 'string' && v.status.trim()\<close>,
  returning \<^verbatim>\<open>v.status.trim()\<close>.\<close>

definition object_status :: "jsval \<Rightarrow> thrown + string option" where
  "object_status v =
     (if truthy v \<and> is_object v then bindE (get_prop v ''status'') (\<lambda>st. Inr (trimmed_string st))
      else Inr None)"

text \<open>The block under \<^verbatim>\<open>if (invoice.status && typeof invoice.status === 'object')\<close>,
  with \<^verbatim>\<open>s = invoice.status\<close>.\<close>

definition status_block :: "jsval \<Rightarrow> thrown + string option" where
  "status_block s =
     first_of (bindE (get_prop s ''status'') (\<lambda>st. Inr (trimmed_string st)))
    (first_of (bindE (get_prop s ''status'') object_status)
              (bindE (get_prop s ''history'') scan_history))"

text \<open>The loop over \<^verbatim>\<open>altKeys\<close>.\<close>

fun alt_keys :: "jsval \<Rightarrow> string list \<Rightarrow> thrown + string option" where
  "alt_keys invoice [] = Inr None"
| "alt_keys invoice (k # ks) =
     first_of (bindE (get_prop invoice k) (\<lambda>v. Inr (trimmed_string v)))
    (first_of (bindE (get_prop invoice k) object_status)
              (alt_keys invoice ks))"

text \<open>\<^verbatim>\<open>if (invoice.items && Array.isArray(invoice.items))\<close> and the forward loop.\<close>

fun scan_items :: "jsval \<Rightarrow> thrown + string option" where
  "scan_items (JArr xs) = scan_status xs"
| "scan_items v = Inr None"

definition extractInvoiceStatus :: "jsval \<Rightarrow> thrown + string option" where
  "extractInvoiceStatus invoice =
     (if \<not> truthy invoice then Inr None
      else
        first_of (bindE (get_prop invoice ''status'') (\<lambda>st. Inr (trimmed_string st)))
       (first_of (bindE (get_prop invoice ''status'')
                    (\<lambda>s. if truthy s \<and> is_object s then status_block s else Inr None))
       (first_of (bindE (get_prop invoice ''history'') scan_history)
       (first_of (alt_keys invoice [''state'', ''payment_status'', ''status_text''])
                 (bindE (get_prop invoice ''items'') scan_items)))))"

section \<open>The ordered probe of the specification\<close>

text \<open>
  The extractor as the specification words it: a list of rules tried in order, the first
  that finds a status wins. \<open>field\<close> reads a field of a mapping and finds nothing in any
  other value. Each rule takes the test \<open>acc\<close> that a candidate value has to pass.
\<close>

fun field :: "jsval \<Rightarrow> string \<Rightarrow> jsval option" where
  "field (JObj kvs) k = map_of kvs k"
| "field v k = None"

text \<open>"A non-empty string, returned trimmed", word for word.\<close>

fun nonempty_trimmed :: "jsval \<Rightarrow> string option" where
  "nonempty_trimmed (JStr s) = (if s \<noteq> [] then Some (trim s) else None)"
| "nonempty_trimmed v = None"

text \<open>A string that is non-empty once trimmed, returned trimmed.\<close>

fun nonblank_trimmed :: "jsval \<Rightarrow> string option" where
  "nonblank_trimmed (JStr s) = (if trim s \<noteq> [] then Some (trim s) else None)"
| "nonblank_trimmed v = None"

fun sequence_of :: "jsval \<Rightarrow> jsval list option" where
  "sequence_of (JArr xs) = Some xs"
| "sequence_of v = None"

text \<open>The first entry, in the order given, whose \<open>status\<close> field passes.\<close>

fun first_entry_status :: "(jsval \<Rightarrow> string option) \<Rightarrow> jsval list \<Rightarrow> string option" where
  "first_entry_status acc [] = None"
| "first_entry_status acc (x # xs) =
     (case Option.bind (field x ''status'') acc of
        Some r \<Rightarrow> Some r
      | None \<Rightarrow> first_entry_status acc xs)"

fun first_match :: "('a \<Rightarrow> 'b option) list \<Rightarrow> 'a \<Rightarrow> 'b option" where
  "first_match [] d = None"
| "first_match (p # ps) d = (case p d of Some r \<Rightarrow> Some r | None \<Rightarrow> first_match ps d)"

definition rule1 :: "(jsval \<Rightarrow> string option) \<Rightarrow> jsval \<Rightarrow> string option" where
  "rule1 acc d = Option.bind (field d ''status'') acc"

definition rule2a :: "(jsval \<Rightarrow> string option) \<Rightarrow> jsval \<Rightarrow> string option" where
  "rule2a acc d = Option.bind (field d ''status'') (\<lambda>s. Option.bind (field s ''status'') acc)"

definition rule2b :: "(jsval \<Rightarrow> string option) \<Rightarrow> jsval \<Rightarrow> string option" where
  "rule2b acc d =
     Option.bind (field d ''status'') (\<lambda>s.
     Option.bind (field s ''status'') (\<lambda>t.
     Option.bind (field t ''status'') acc))"

definition rule2c :: "(jsval \<Rightarrow> string option) \<Rightarrow> jsval \<Rightarrow> string option" where
  "rule2c acc d =
     Option.bind (field d ''status'') (\<lambda>s.
     Option.bind (field s ''history'') (\<lambda>h.
     Option.bind (sequence_of h) (\<lambda>hs. first_entry_status acc (rev hs))))"

definition rule3 :: "(jsval \<Rightarrow> string option) \<Rightarrow> jsval \<Rightarrow> string option" where
  "rule3 acc d =
     Option.bind (field d ''history'') (\<lambda>h.
     Option.bind (sequence_of h) (\<lambda>hs. first_entry_status acc (rev hs)))"

definition rule4 :: "(jsval \<Rightarrow> string option) \<Rightarrow> string \<Rightarrow> jsval \<Rightarrow> string option" where
  "rule4 acc k d =
     Option.bind (field d k) (\<lambda>v.
       case acc v of Some r \<Rightarrow> Some r | None \<Rightarrow> Option.bind (field v ''status'') acc)"

definition rule5 :: "(jsval \<Rightarrow> string option) \<Rightarrow> jsval \<Rightarrow> string option" where
  "rule5 acc d =
     Option.bind (field d ''items'') (\<lambda>h.
     Option.bind (sequence_of h) (\<lambda>xs. first_entry_status acc xs))"

definition spec_extract :: "(jsval \<Rightarrow> string option) \<Rightarrow> jsval \<Rightarrow> string option" where
  "spec_extract acc d =
     first_match [rule1 acc, rule2a acc, rule2b acc, rule2c acc, rule3 acc,
                  rule4 acc ''state'', rule4 acc ''payment_status'', rule4 acc ''status_text'',
                  rule5 acc] d"

definition probed_fields :: "string list" where
  "probed_fields = [''status'', ''history'', ''state'', ''payment_status'', ''status_text'', ''items'']"

section \<open>The invoice_modal handler\<close>

subsection \<open>Strings and conversions\<close>

text \<open>\<^verbatim>\<open>String.prototype.toUpperCase\<close> on 8-bit code units: the letters a to z
  (97 to 122) and the accented letters 224 to 254, the division sign 247 apart, move down
  by 32; the sharp s (223) becomes \<open>SS\<close>; every other character stays. The micro sign
  (181) and the y with diaeresis (255) stay too: their capitals lie beyond the 8-bit code
  units.\<close>

definition upper_char :: "char \<Rightarrow> string" where
  "upper_char c =
     (let n = (of_char c :: nat) in
      if (97 \<le> n \<and> n \<le> 122) \<or> (224 \<le> n \<and> n \<le> 254 \<and> n \<noteq> 247) then [char_of (n - 32)]
      else if n = 223 then ''SS''
      else [c])"

definition toUpperCase :: "string \<Rightarrow> string" where
  "toUpperCase s = concat (map upper_char s)"

fun digits :: "nat \<Rightarrow> string" where
  "digits n =
     (if n < 10 then [''0123456789'' ! n]
      else digits (n div 10) @ [''0123456789'' ! (n mod 10)])"

declare digits.simps [simp del]

fun join_with :: "string \<Rightarrow> string list \<Rightarrow> string" where
  "join_with sep [] = []"
| "join_with sep [x] = x"
| "join_with sep (x # y # ys) = x @ sep @ join_with sep (y # ys)"

text \<open>\<^verbatim>\<open>String(v)\<close>. An integer prints in decimal (as JavaScript prints the integers
  it holds exactly, below \<open>2\<^sup>5\<^sup>3\<close> in magnitude). An array prints as its elements
  joined by commas, with \<^verbatim>\<open>null\<close> and \<^verbatim>\<open>undefined\<close> printed empty. An object prints
  as \<^verbatim>\<open>[object Object]\<close>, unless it has a property \<^verbatim>\<open>toString\<close> of its own: that
  value is no function, the inherited \<^verbatim>\<open>valueOf\<close> gives no primitive, and the
  conversion throws a \<^verbatim>\<open>TypeError\<close>.\<close>

fun js_String :: "jsval \<Rightarrow> thrown + string"
  and js_elements :: "jsval list \<Rightarrow> thrown + string list" where
  "js_String JUndefined = Inr ''undefined''"
| "js_String JNull = Inr ''null''"
| "js_String (JBool b) = Inr (if b then ''true'' else ''false'')"
| "js_String (JNum n) = Inr (if n < 0 then ''-'' @ digits (nat (- n)) else digits (nat n))"
| "js_String (JStr s) = Inr s"
| "js_String (JArr xs) =
     (case js_elements xs of Inl err \<Rightarrow> Inl err | Inr ss \<Rightarrow> Inr (join_with '','' ss))"
| "js_String (JObj kvs) =
     (if map_of kvs ''toString'' \<noteq> None then Inl TypeError else Inr ''[object Object]'')"
| "js_elements [] = Inr []"
| "js_elements (x # xs) =
     (case (if x = JUndefined \<or> x = JNull then Inr [] else js_String x) of
        Inl err \<Rightarrow> Inl err
      | Inr s \<Rightarrow> (case js_elements xs of Inl err \<Rightarrow> Inl err | Inr ss \<Rightarrow> Inr (s # ss)))"

fun nullish :: "jsval \<Rightarrow> bool" where
  "nullish JUndefined = True"
| "nullish JNull = True"
| "nullish v = False"

subsection \<open>The database, the commerce API and the guild\<close>

text \<open>A row of the table \<^verbatim>\<open>verifications\<close>. The column \<^verbatim>\<open>product_id\<close> holds the value
  bound to it, \<^verbatim>\<open>null\<close> when no product was found.\<close>

record verification =
  invoice_id :: string
  discord_id :: string
  product_id :: jsval
  role_id :: string
  status :: string

datatype db_error = SQLITE_CONSTRAINT | SQLITE_ERROR

text \<open>What \<^verbatim>\<open>axios.get\<close> settles to: resolved with \<^verbatim>\<open>resp.data\<close> on a 2xx answer,
  rejected with the status of the answer, or with none when no answer came.\<close>

datatype http_result = Resolved jsval | Rejected "nat option"

text \<open>The result of \<^verbatim>\<open>SELECT role_id FROM role_mappings WHERE product_id = ?\<close>.\<close>

datatype select_result = SelectError | Row string | NoRow

text \<open>\<^verbatim>\<open>guild.members.me\<close>: whether its permissions include Manage Roles, and the position
  of its highest role.\<close>

record bot_member =
  manage_roles :: bool
  highest_position :: int

text \<open>The guild as the handler observes it: whether \<^verbatim>\<open>members.fetch\<close> finds an account,
  the bot's own member, the position of a role in the cache and as fetched, and whether
  \<^verbatim>\<open>member.roles.add\<close> rejects.\<close>

record guild =
  has_member :: "string \<Rightarrow> bool"
  me :: "bot_member option"
  roles_cache :: "string \<Rightarrow> int option"
  roles_fetch :: "string \<Rightarrow> int option"
  add_rejects :: bool

text \<open>Everything outside the handler that one attempt reads.\<close>

record env =
  select_error :: bool
  axios_get :: "string \<Rightarrow> http_result"
  role_mappings :: "jsval \<Rightarrow> select_result"
  VERIFY_ROLE_ID :: "string option"
  insert_error :: bool
  interaction_guild :: "guild option"

text \<open>Everything one attempt can change: the table of verifications, the requests sent to
  the commerce API (by invoice id), and the roles added to members (member, role, reason).\<close>

record state =
  verifications :: "verification list"
  requests :: "string list"
  member_roles :: "(string \<times> string \<times> string) list"

subsection \<open>Replies\<close>

datatype not_found = Http404 | EmptyBody

datatype no_role = MappingError | NoMapping | NoProduct

datatype reply =
    InvalidInput
  | InternalCheckError
  | AlreadyUsed string
  | Unauthorized
  | NotFound not_found
  | UpstreamUnavailable
  | NotEligible string
  | ConcurrentlyUsed string
  | InternalSaveError
  | NoRoleConfigured no_role
  | MemberNotFound
  | InsufficientPermission
  | RoleNotFound
  | RoleRankTooLow
  | GrantError
  | Granted string string

text \<open>The text of each reply, after its leading cross or check mark.\<close>

fun content :: "reply \<Rightarrow> string" where
  "content InvalidInput = ''Invoice ID is required.''"
| "content InternalCheckError = ''Internal error while checking invoice. Try again later.''"
| "content (AlreadyUsed i) = ''Invoice ID '' @ i @ '' is already used by another discord account.''"
| "content Unauthorized = ''Sell.app API unauthorized (invalid API key).''"
| "content (NotFound Http404) = ''Invoice not found.''"
| "content (NotFound EmptyBody) = ''Invoice not found or invalid response from Sell.app.''"
| "content UpstreamUnavailable = ''Could not verify invoice. Please try again later.''"
| "content (NotEligible t) = ''Invoice status is '' @ t @ ''. Not eligible.''"
| "content (ConcurrentlyUsed i) = ''Invoice ID '' @ i @ '' was just used by another account.''"
| "content InternalSaveError = ''Internal error while saving verification.''"
| "content (NoRoleConfigured MappingError) =
     ''Invoice verified but no role mapping and no VERIFY_ROLE_ID configured.''"
| "content (NoRoleConfigured NoMapping) =
     ''Invoice verified but no role mapping found and VERIFY_ROLE_ID not configured.''"
| "content (NoRoleConfigured NoProduct) =
     ''Invoice verified but no product info and VERIFY_ROLE_ID not configured.''"
| "content MemberNotFound =
     ''Invoice verified but could not find your guild member to assign role. Contact staff.''"
| "content InsufficientPermission =
     ''Invoice verified but bot lacks Manage Roles to assign role. Contact staff.''"
| "content RoleNotFound =
     ''Invoice verified but configured role not found in this server. Contact staff.''"
| "content RoleRankTooLow =
     ''Invoice verified but bot role is not high enough to assign the verification role. Contact staff.''"
| "content GrantError = ''Invoice verified but failed to assign role. Contact staff.''"
| "content (Granted r st) = ''Invoice verified! Status: '' @ st @ ''. Role <@&'' @ r @ ''> assigned.''"

subsection \<open>The steps of one attempt\<close>

definition validStatuses :: "string list" where
  "validStatuses = [''PAID'', ''COMPLETED'', ''FULFILLED'', ''SUCCESS'']"

text \<open>\<^verbatim>\<open>SELECT discord_id, status FROM verifications WHERE invoice_id = ?\<close>: the row with
  that invoice id, if there is one.\<close>

definition select_verification :: "verification list \<Rightarrow> string \<Rightarrow> verification option" where
  "select_verification tbl iid = find (\<lambda>r. invoice_id r = iid) tbl"

text \<open>The \<^verbatim>\<open>INSERT\<close>: it fails with \<^verbatim>\<open>SQLITE_CONSTRAINT\<close> when the invoice id is
  already in the table (the column is \<^verbatim>\<open>UNIQUE\<close>), with another error when the database
  is at fault, and appends the row otherwise.\<close>

definition insert_verification ::
  "bool \<Rightarrow> verification list \<Rightarrow> verification \<Rightarrow> db_error + verification list" where
  "insert_verification fault tbl r =
     (if fault then Inl SQLITE_ERROR
      else if invoice_id r \<in> set (map invoice_id tbl) then Inl SQLITE_CONSTRAINT
      else Inr (tbl @ [r]))"

text \<open>\<^verbatim>\<open>resp.data?.data ?? resp.data ?? null\<close>.\<close>

definition response_invoice :: "jsval \<Rightarrow> thrown + jsval" where
  "response_invoice d =
     bindE (if nullish d then Inr JUndefined else get_prop d ''data'') (\<lambda>inner.
       Inr (if \<not> nullish inner then inner else if \<not> nullish d then d else JNull))"

text \<open>\<^verbatim>\<open>if (currentStatus) currentStatus = String(currentStatus).toUpperCase();\<close> where
  \<^verbatim>\<open>null\<close> is \<open>None\<close>.\<close>

definition normalize_status :: "string option \<Rightarrow> string option" where
  "normalize_status st =
     (case st of None \<Rightarrow> None | Some x \<Rightarrow> if x \<noteq> [] then Some (toUpperCase x) else Some x)"

text \<open>\<^verbatim>\<open>!currentStatus || !validStatuses.includes(currentStatus)\<close>.\<close>

definition not_eligible :: "string option \<Rightarrow> bool" where
  "not_eligible st = (case st of None \<Rightarrow> True | Some x \<Rightarrow> x = [] \<or> x \<notin> set validStatuses)"

text \<open>\<^verbatim>\<open>currentStatus || 'UNKNOWN'\<close>.\<close>

definition status_or_unknown :: "string option \<Rightarrow> string" where
  "status_or_unknown st = (case st of None \<Rightarrow> ''UNKNOWN'' | Some x \<Rightarrow> if x \<noteq> [] then x else ''UNKNOWN'')"

text \<open>\<^verbatim>\<open>a || b\<close> on values.\<close>

definition js_or :: "jsval \<Rightarrow> jsval \<Rightarrow> jsval" where
  "js_or a b = (if truthy a then a else b)"

text \<open>The product id: \<^verbatim>\<open>String(invoice.product_id)\<close> when that is truthy; else, when
  \<^verbatim>\<open>invoice.items\<close> is a non-empty array, \<^verbatim>\<open>it.product_id || it.id || it.sku || null\<close>
  of its first element \<^verbatim>\<open>it\<close>; else \<^verbatim>\<open>null\<close>.\<close>

definition resolveProductId :: "jsval \<Rightarrow> thrown + jsval" where
  "resolveProductId invoice =
     bindE (get_prop invoice ''product_id'') (\<lambda>p.
       if truthy p then bindE (js_String p) (\<lambda>printed. Inr (JStr printed))
       else bindE (get_prop invoice ''items'') (\<lambda>its.
         case its of
           JArr (it # rest) \<Rightarrow>
             bindE (get_prop it ''product_id'') (\<lambda>a.
             bindE (get_prop it ''id'') (\<lambda>b.
             bindE (get_prop it ''sku'') (\<lambda>c.
               Inr (js_or a (js_or b (js_or c JNull))))))
         | _ \<Rightarrow> Inr JNull))"

text \<open>\<^verbatim>\<open>guild.roles.cache.get(id) || (await guild.roles.fetch(id).catch(() => null))\<close>:
  the position of the role found, if any.\<close>

definition find_role :: "guild \<Rightarrow> string \<Rightarrow> int option" where
  "find_role g roleIdStr =
     (case roles_cache g roleIdStr of Some p \<Rightarrow> Some p | None \<Rightarrow> roles_fetch g roleIdStr)"

text \<open>The \<^verbatim>\<open>try\<close> block inside the callback of the insert: find the member, check the
  bot's permission, find the role, compare the positions, add the role.\<close>

definition grantRole ::
  "guild option \<Rightarrow> state \<Rightarrow> string \<Rightarrow> string \<Rightarrow> string \<Rightarrow> string \<Rightarrow> thrown + reply \<times> state" where
  "grantRole og s userId invoiceId roleIdStr currentStatus =
     (case og of
        None \<Rightarrow> Inl TypeError
      | Some g \<Rightarrow>
          if \<not> has_member g userId then Inr (MemberNotFound, s)
          else
            (case me g of
               None \<Rightarrow> Inr (InsufficientPermission, s)
             | Some b \<Rightarrow>
                 if \<not> manage_roles b then Inr (InsufficientPermission, s)
                 else
                   (case find_role g roleIdStr of
                      None \<Rightarrow> Inr (RoleNotFound, s)
                    | Some position \<Rightarrow>
                        if highest_position b \<le> position then Inr (RoleRankTooLow, s)
                        else if add_rejects g then Inl DiscordAPIError
                        else
                          Inr (Granted roleIdStr currentStatus,
                               s\<lparr>member_roles := member_roles s @
                                   [(userId, roleIdStr, ''Verified invoice '' @ invoiceId)]\<rparr>))))"

text \<open>\<^verbatim>\<open>assignRoleAndPersist(roleIdToUse)\<close>: insert the row, then grant the role. The role
  id is a string already, so \<^verbatim>\<open>String(roleIdToUse)\<close> is that string.\<close>

definition assignRoleAndPersist ::
  "env \<Rightarrow> state \<Rightarrow> string \<Rightarrow> string \<Rightarrow> jsval \<Rightarrow> string \<Rightarrow> string \<Rightarrow> reply \<times> state" where
  "assignRoleAndPersist e s userId invoiceId productId currentStatus roleIdToUse =
     (case insert_verification (insert_error e) (verifications s)
             \<lparr>invoice_id = invoiceId, discord_id = userId, product_id = productId,
              role_id = roleIdToUse, status = currentStatus\<rparr> of
        Inl SQLITE_CONSTRAINT \<Rightarrow> (ConcurrentlyUsed invoiceId, s)
      | Inl SQLITE_ERROR \<Rightarrow> (InternalSaveError, s)
      | Inr tbl \<Rightarrow>
          (let s' = s\<lparr>verifications := tbl\<rparr> in
           case grantRole (interaction_guild e) s' userId invoiceId roleIdToUse currentStatus of
             Inl assignErr \<Rightarrow> (GrantError, s')
           | Inr r \<Rightarrow> r))"

text \<open>A truthy \<^verbatim>\<open>VERIFY_ROLE_ID\<close>: set and not empty.\<close>

definition default_role :: "env \<Rightarrow> string option" where
  "default_role e =
     (case VERIFY_ROLE_ID e of None \<Rightarrow> None | Some r \<Rightarrow> if r \<noteq> [] then Some r else None)"

text \<open>The role resolution at the end of the \<^verbatim>\<open>try\<close> block.\<close>

definition resolveRole ::
  "env \<Rightarrow> state \<Rightarrow> string \<Rightarrow> string \<Rightarrow> jsval \<Rightarrow> string \<Rightarrow> reply \<times> state" where
  "resolveRole e s userId invoiceId productId currentStatus =
     (if truthy productId then
        (case role_mappings e productId of
           SelectError \<Rightarrow>
             (case default_role e of
                Some r \<Rightarrow> assignRoleAndPersist e s userId invoiceId productId currentStatus r
              | None \<Rightarrow> (NoRoleConfigured MappingError, s))
         | Row mapped \<Rightarrow>
             if mapped \<noteq> [] then
               assignRoleAndPersist e s userId invoiceId productId currentStatus mapped
             else
               (case default_role e of
                  Some r \<Rightarrow> assignRoleAndPersist e s userId invoiceId productId currentStatus r
                | None \<Rightarrow> (NoRoleConfigured NoMapping, s))
         | NoRow \<Rightarrow>
             (case default_role e of
                Some r \<Rightarrow> assignRoleAndPersist e s userId invoiceId productId currentStatus r
              | None \<Rightarrow> (NoRoleConfigured NoMapping, s)))
      else
        (case default_role e of
           Some r \<Rightarrow> assignRoleAndPersist e s userId invoiceId productId currentStatus r
         | None \<Rightarrow> (NoRoleConfigured NoProduct, s)))"

text \<open>The \<^verbatim>\<open>try\<close> block after the request has been sent: the state \<open>s\<close> already holds
  the request. Whatever is thrown here is thrown before anything else is written.\<close>

definition tryBlock :: "env \<Rightarrow> state \<Rightarrow> string \<Rightarrow> string \<Rightarrow> thrown + reply \<times> state" where
  "tryBlock e s userId invoiceId =
     (case axios_get e invoiceId of
        Rejected st \<Rightarrow> Inl (AxiosError st)
      | Resolved d \<Rightarrow>
          bindE (response_invoice d) (\<lambda>invoice.
            if \<not> truthy invoice then Inr (NotFound EmptyBody, s)
            else
              bindE (extractInvoiceStatus invoice) (\<lambda>extracted.
                let currentStatus = normalize_status extracted in
                case currentStatus of
                  None \<Rightarrow> Inr (NotEligible (status_or_unknown currentStatus), s)
                | Some valid \<Rightarrow>
                    if not_eligible currentStatus
                    then Inr (NotEligible (status_or_unknown currentStatus), s)
                    else
                      bindE (resolveProductId invoice) (\<lambda>productId.
                        Inr (resolveRole e s userId invoiceId productId valid)))))"

text \<open>The \<^verbatim>\<open>catch (apiErr)\<close> block.\<close>

fun catchBlock :: "thrown \<Rightarrow> reply" where
  "catchBlock (AxiosError (Some st)) =
     (if st = 401 then Unauthorized else if st = 404 then NotFound Http404 else UpstreamUnavailable)"
| "catchBlock err = UpstreamUnavailable"

text \<open>The handler of the modal \<^verbatim>\<open>invoice_modal\<close>, for the text \<open>input\<close> typed by the
  account \<open>userId\<close>.\<close>

definition invoice_modal :: "env \<Rightarrow> state \<Rightarrow> string \<Rightarrow> string \<Rightarrow> reply \<times> state" where
  "invoice_modal e s userId input =
     (let invoiceId = trim input in
      if invoiceId = [] then (InvalidInput, s)
      else if select_error e then (InternalCheckError, s)
      else
        (case select_verification (verifications s) invoiceId of
           Some row \<Rightarrow> (AlreadyUsed invoiceId, s)
         | None \<Rightarrow>
             (let s1 = s\<lparr>requests := requests s @ [invoiceId]\<rparr> in
              case tryBlock e s1 userId invoiceId of
                Inl apiErr \<Rightarrow> (catchBlock apiErr, s1)
              | Inr r \<Rightarrow> r)))"

section \<open>The cooldown of the verify button\<close>

definition BUTTON_COOLDOWN_MS :: int where
  "BUTTON_COOLDOWN_MS = 15000"

text \<open>\<^verbatim>\<open>buttonCooldown\<close>: the time of the last accepted press of each account, in
  milliseconds since the epoch as \<^verbatim>\<open>Date.now()\<close> gives them.\<close>

type_synonym cooldowns = "string \<rightharpoonup> nat"

text \<open>The body of the pruning timer, run at time \<open>now\<close>.\<close>

definition prune :: "nat \<Rightarrow> cooldowns \<Rightarrow> cooldowns" where
  "prune now m =
     (\<lambda>k. case m k of
             None \<Rightarrow> None
           | Some v \<Rightarrow> if int now - int v > BUTTON_COOLDOWN_MS * 5 then None else Some v)"

datatype button_reply = PleaseWait int | ShowModal

text \<open>The handler of the button \<^verbatim>\<open>verify_invoice_button\<close> at time \<open>now\<close>; the wait is
  \<^verbatim>\<open>Math.ceil((BUTTON_COOLDOWN_MS - diff) / 1000)\<close>.\<close>

definition verify_invoice_button ::
  "nat \<Rightarrow> cooldowns \<Rightarrow> string \<Rightarrow> button_reply \<times> cooldowns" where
  "verify_invoice_button now m userId =
     (let last = (case m userId of Some v \<Rightarrow> v | None \<Rightarrow> 0);
          diff = int now - int last
      in if diff < BUTTON_COOLDOWN_MS
         then (PleaseWait (- ((diff - BUTTON_COOLDOWN_MS) div 1000)), m)
         else (ShowModal, m(userId \<mapsto> now)))"

section \<open>Sample inputs\<close>

text \<open>A guild in which every account is a member, the bot may manage roles and its highest
  role is at position 5; the role \<open>role-low\<close> is at position 3 and \<open>role-top\<close> at
  position 5.\<close>

definition sample_guild :: guild where
  "sample_guild =
     \<lparr>has_member = (\<lambda>u. True),
      me = Some \<lparr>manage_roles = True, highest_position = 5\<rparr>,
      roles_cache = (\<lambda>r. None),
      roles_fetch = (\<lambda>r. if r = ''role-low'' then Some 3
                         else if r = ''role-top'' then Some 5 else None),
      add_rejects = False\<rparr>"

text \<open>A healthy database with no role mapping at all, the answer of the commerce API and
  the value of \<^verbatim>\<open>VERIFY_ROLE_ID\<close> as given.\<close>

definition sample_env :: "http_result \<Rightarrow> string option \<Rightarrow> env" where
  "sample_env answer verify_role =
     \<lparr>select_error = False,
      axios_get = (\<lambda>i. answer),
      role_mappings = (\<lambda>p. NoRow),
      VERIFY_ROLE_ID = verify_role,
      insert_error = False,
      interaction_guild = Some sample_guild\<rparr>"

definition empty_state :: state where
  "empty_state = \<lparr>verifications = [], requests = [], member_roles = []\<rparr>"

text \<open>The state after the account \<open>u1\<close> has verified the invoice \<open>INV-1\<close>.\<close>

definition used_state :: state where
  "used_state =
     \<lparr>verifications =
        [\<lparr>invoice_id = ''INV-1'', discord_id = ''u1'', product_id = JStr ''42'',
          role_id = ''role-low'', status = ''PAID''\<rparr>],
      requests = [''INV-1''],
      member_roles = [(''u1'', ''role-low'', ''Verified invoice INV-1'')]\<rparr>"

text \<open>The same guild with a bot that does not hold Manage Roles.\<close>

definition unprivileged_guild :: guild where
  "unprivileged_guild = sample_guild\<lparr>me := Some \<lparr>manage_roles = False, highest_position = 5\<rparr>\<rparr>"

definition paid_body :: jsval where
  "paid_body = JObj [(''data'', JObj [(''status'', JStr ''paid''), (''product_id'', JNum 42)])]"

definition pending_body :: jsval where
  "pending_body = JObj [(''status'', JStr ''pending'')]"

section \<open>The extractor against the ordered probe\<close>

lemma first_of_Inr:
  "first_of (Inr a) (Inr b) = Inr (case a of Some r \<Rightarrow> Some r | None \<Rightarrow> b)"
  by (simp add: first_of_def split: option.splits)

lemma nonblank_is_guard: "nonblank_trimmed v = trimmed_string v"
  by (cases v) simp_all

lemma get_prop_field:
  "truthy v \<Longrightarrow> get_prop v k = Inr (case field v k of Some x \<Rightarrow> x | None \<Rightarrow> JUndefined)"
  by (cases v) simp_all

lemma field_falsy: "\<not> truthy v \<Longrightarrow> field v k = None"
  by (cases v) simp_all

lemma read_status:
  "truthy v \<Longrightarrow>
   bindE (get_prop v k) (\<lambda>st. Inr (trimmed_string st)) = Inr (Option.bind (field v k) trimmed_string)"
  by (simp add: get_prop_field bindE_def split: option.splits)

lemma read_then:
  "truthy v \<Longrightarrow> (\<And>x. f x = Inr (g x)) \<Longrightarrow> g JUndefined = None \<Longrightarrow>
   bindE (get_prop v k) f = Inr (Option.bind (field v k) g)"
  by (simp add: get_prop_field bindE_def split: option.splits)

lemma scan_status_eq: "scan_status xs = Inr (first_entry_status trimmed_string xs)"
proof (induction xs)
  case Nil
  show ?case by simp
next
  case (Cons x xs)
  show ?case
  proof (cases "truthy x")
    case True
    then show ?thesis
      using Cons.IH by (simp add: read_status first_of_def split: option.splits)
  next
    case False
    then show ?thesis
      using Cons.IH by (simp add: field_falsy first_of_def)
  qed
qed

lemma object_status_eq: "object_status v = Inr (Option.bind (field v ''status'') trimmed_string)"
  by (cases v) (simp_all add: object_status_def bindE_def split: option.splits)

lemma scan_history_eq:
  "scan_history h =
   Inr (Option.bind (sequence_of h) (\<lambda>hs. first_entry_status trimmed_string (rev hs)))"
  by (cases h) (simp_all add: scan_status_eq)

lemma scan_items_eq:
  "scan_items h = Inr (Option.bind (sequence_of h) (\<lambda>hs. first_entry_status trimmed_string hs))"
  by (cases h) (simp_all add: scan_status_eq)

lemma alt_key_step:
  assumes "truthy d"
  shows "first_of (bindE (get_prop d k) (\<lambda>v. Inr (trimmed_string v)))
           (first_of (bindE (get_prop d k) object_status) rest) =
         (case rule4 trimmed_string k d of Some r \<Rightarrow> Inr (Some r) | None \<Rightarrow> rest)"
proof (cases "field d k")
  case None
  then show ?thesis
    using assms
    by (simp add: get_prop_field bindE_def first_of_def rule4_def object_status_def)
next
  case (Some v)
  then show ?thesis
    using assms
    by (simp add: get_prop_field bindE_def first_of_def rule4_def object_status_eq
        split: option.splits)
qed

lemma alt_keys_eq:
  "truthy d \<Longrightarrow> alt_keys d ks = Inr (first_match (map (rule4 trimmed_string) ks) d)"
  by (induction ks) (simp_all add: alt_key_step split: option.splits)

lemma status_block_eq:
  assumes t: "truthy s"
  shows "status_block s =
     Inr (first_match
       [\<lambda>s. Option.bind (field s ''status'') trimmed_string,
        \<lambda>s. Option.bind (field s ''status'') (\<lambda>t. Option.bind (field t ''status'') trimmed_string),
        \<lambda>s. Option.bind (field s ''history'') (\<lambda>h.
               Option.bind (sequence_of h) (\<lambda>hs. first_entry_status trimmed_string (rev hs)))] s)"
proof -
  have a: "bindE (get_prop s ''status'') object_status =
           Inr (Option.bind (field s ''status'')
                  (\<lambda>v. Option.bind (field v ''status'') trimmed_string))"
    using t by (rule read_then) (simp_all add: object_status_eq)
  have b: "bindE (get_prop s ''history'') scan_history =
           Inr (Option.bind (field s ''history'') (\<lambda>h.
                  Option.bind (sequence_of h) (\<lambda>hs. first_entry_status trimmed_string (rev hs))))"
    using t by (rule read_then) (simp_all add: scan_history_eq)
  show ?thesis
    by (simp add: status_block_def read_status[OF t] a b first_of_def split: option.splits)
qed

lemma spec_extract_falsy: "\<not> truthy d \<Longrightarrow> spec_extract acc d = None"
  by (simp add: spec_extract_def rule1_def rule2a_def rule2b_def rule2c_def rule3_def rule4_def
      rule5_def field_falsy)

lemma extract_as_probes: "extractInvoiceStatus d = Inr (spec_extract trimmed_string d)"
proof (cases "truthy d")
  case False
  then show ?thesis by (simp add: extractInvoiceStatus_def spec_extract_falsy)
next
  case t: True
  let ?blk = "\<lambda>s. if truthy s \<and> is_object s then status_block s else Inr None"
  let ?g = "first_match
       [\<lambda>s. Option.bind (field s ''status'') trimmed_string,
        \<lambda>s. Option.bind (field s ''status'') (\<lambda>t. Option.bind (field t ''status'') trimmed_string),
        \<lambda>s. Option.bind (field s ''history'') (\<lambda>h.
               Option.bind (sequence_of h) (\<lambda>hs. first_entry_status trimmed_string (rev hs)))]"
  have blk: "?blk s = Inr (?g s)" for s
    by (cases s) (simp_all add: status_block_eq)
  have a: "bindE (get_prop d ''status'') ?blk = Inr (Option.bind (field d ''status'') ?g)"
    using t blk by (rule read_then) simp
  have b: "bindE (get_prop d ''history'') scan_history =
           Inr (Option.bind (field d ''history'') (\<lambda>h.
                  Option.bind (sequence_of h) (\<lambda>hs. first_entry_status trimmed_string (rev hs))))"
    using t by (rule read_then) (simp_all add: scan_history_eq)
  have c: "bindE (get_prop d ''items'') scan_items =
           Inr (Option.bind (field d ''items'') (\<lambda>h.
                  Option.bind (sequence_of h) (\<lambda>hs. first_entry_status trimmed_string hs)))"
    using t by (rule read_then) (simp_all add: scan_items_eq)
  have e: "alt_keys d [''state'', ''payment_status'', ''status_text''] =
           Inr (first_match [rule4 trimmed_string ''state'', rule4 trimmed_string ''payment_status'',
                  rule4 trimmed_string ''status_text''] d)"
    using alt_keys_eq[OF t, of "[''state'', ''payment_status'', ''status_text'']"] by simp
  have d: "extractInvoiceStatus d =
      Inr (case Option.bind (field d ''status'') trimmed_string of Some r \<Rightarrow> Some r | None \<Rightarrow>
          (case Option.bind (field d ''status'') ?g of Some r \<Rightarrow> Some r | None \<Rightarrow>
          first_match [rule3 trimmed_string, rule4 trimmed_string ''state'',
            rule4 trimmed_string ''payment_status'', rule4 trimmed_string ''status_text'',
            rule5 trimmed_string] d))"
    unfolding extractInvoiceStatus_def
    using t
    by (simp add: read_status[OF t] a b c e first_of_Inr rule3_def rule5_def
        del: alt_keys.simps split: option.split)
  show ?thesis
    unfolding d
    by (cases "field d ''status''")
       (simp_all add: spec_extract_def rule1_def rule2a_def rule2b_def rule2c_def
          split: option.splits)
qed

lemma extract_paid:
  "extractInvoiceStatus (JObj [(''status'', JStr ''paid'')]) = Inr (Some ''paid'')"
  by (simp add: extractInvoiceStatus_def first_of_def bindE_def trim_def is_space_def)

lemma extract_nested:
  "extractInvoiceStatus (JObj [(''status'', JObj [(''status'', JStr ''Completed'')])]) =
   Inr (Some ''Completed'')"
  by (simp add: extractInvoiceStatus_def status_block_def first_of_def bindE_def trim_def
      is_space_def)

lemma extract_history:
  "extractInvoiceStatus
     (JObj [(''status'', JObj [(''history'',
        JArr [JObj [(''status'', JStr ''pending'')], JObj [(''status'', JStr ''fulfilled'')]])])]) =
   Inr (Some ''fulfilled'')"
  by (simp add: extractInvoiceStatus_def status_block_def object_status_def first_of_def
      bindE_def trim_def is_space_def)

text \<open>
  C2 (as amended). For every document the extractor computes the ordered, first-match-wins
  probe: \<open>status\<close> as a string; inside a mapping \<open>status\<close> its \<open>status\<close> string, the
  doubly nested \<open>status.status.status\<close>, the last-to-first scan of its \<open>history\<close>; the
  last-to-first scan of the document's \<open>history\<close>; the keys \<open>state\<close>,
  \<open>payment_status\<close>, \<open>status_text\<close> in that order, as a string or as a mapping with a
  \<open>status\<close> string; the forward scan of \<open>items\<close>; otherwise absent. A string counts
  when it is non-empty after trimming, and is returned trimmed. The three examples of the
  specification evaluate to \<open>paid\<close>, \<open>Completed\<close> and \<open>fulfilled\<close>.
\<close>

theorem extract_ordered_probe:
  "extractInvoiceStatus d = Inr (spec_extract nonblank_trimmed d)
   \<and> extractInvoiceStatus (JObj [(''status'', JStr ''paid'')]) = Inr (Some ''paid'')
   \<and> extractInvoiceStatus (JObj [(''status'', JObj [(''status'', JStr ''Completed'')])]) =
       Inr (Some ''Completed'')
   \<and> extractInvoiceStatus
       (JObj [(''status'', JObj [(''history'',
          JArr [JObj [(''status'', JStr ''pending'')], JObj [(''status'', JStr ''fulfilled'')]])])]) =
       Inr (Some ''fulfilled'')"
proof -
  have "nonblank_trimmed = trimmed_string"
    by (rule ext) (rule nonblank_is_guard)
  then show ?thesis
    using extract_as_probes[of d] extract_paid extract_nested extract_history by simp
qed

text \<open>
  C2, as the claim states it, fails on a whitespace-only string: with \<open>status\<close> a single
  space and \<open>state\<close> equal to \<open>paid\<close>, rule (1) read word for word returns the trimmed
  status, the empty string, while the extractor skips the blank status and returns \<open>paid\<close>.
\<close>

theorem extract_blank_status_counterexample:
  "extractInvoiceStatus (JObj [(''status'', JStr '' ''), (''state'', JStr ''paid'')]) =
     Inr (Some ''paid'')
   \<and> spec_extract nonempty_trimmed (JObj [(''status'', JStr '' ''), (''state'', JStr ''paid'')]) =
     Some []"
  by (simp add: extractInvoiceStatus_def spec_extract_def rule1_def first_of_def bindE_def
      object_status_def trim_def is_space_def)

text \<open>
  C3. The extractor is total: on every value (absent, null, a scalar, an array, a mapping
  with fields of any type, nested to any depth) it returns a status or absent and throws
  nothing; and on a document that has none of the fields \<open>status\<close>, \<open>history\<close>,
  \<open>state\<close>, \<open>payment_status\<close>, \<open>status_text\<close>, \<open>items\<close> it returns absent.
\<close>

theorem extract_total:
  "(\<exists>r. extractInvoiceStatus d = Inr r)
   \<and> ((\<forall>k \<in> set probed_fields. field d k = None) \<longrightarrow> extractInvoiceStatus d = Inr None)"
proof
  show "\<exists>r. extractInvoiceStatus d = Inr r"
    using extract_as_probes[of d] by blast
next
  show "(\<forall>k \<in> set probed_fields. field d k = None) \<longrightarrow> extractInvoiceStatus d = Inr None"
  proof
    assume "\<forall>k \<in> set probed_fields. field d k = None"
    then have "spec_extract trimmed_string d = None"
      by (simp add: probed_fields_def spec_extract_def rule1_def rule2a_def rule2b_def
          rule2c_def rule3_def rule4_def rule5_def)
    then show "extractInvoiceStatus d = Inr None"
      using extract_as_probes[of d] by simp
  qed
qed

theorem extract_total_witness:
  "list_all (\<lambda>k. field (JObj [(''id'', JNum 7), (''total'', JStr '' '')]) k = None) probed_fields
   \<and> extractInvoiceStatus (JObj [(''id'', JNum 7), (''total'', JStr '' '')]) = Inr None"
proof -
  have h: "\<forall>k \<in> set probed_fields. field (JObj [(''id'', JNum 7), (''total'', JStr '' '')]) k = None"
    by (simp add: probed_fields_def)
  show ?thesis
    using h extract_total[of "JObj [(''id'', JNum 7), (''total'', JStr '' '')]"]
    by (simp add: list_all_iff)
qed

section \<open>Properties of the handler\<close>

lemma select_found:
  "iid \<in> set (map invoice_id tbl) \<Longrightarrow> \<exists>row. select_verification tbl iid = Some row"
  by (cases "select_verification tbl iid") (auto simp: select_verification_def find_None_iff)

lemma select_none:
  "select_verification tbl iid = None \<longleftrightarrow> iid \<notin> set (map invoice_id tbl)"
  by (auto simp: select_verification_def find_None_iff)

lemma modal_found:
  "trim input \<noteq> [] \<Longrightarrow> \<not> select_error e \<Longrightarrow>
   select_verification (verifications s) (trim input) = Some row \<Longrightarrow>
   invoice_modal e s u input = (AlreadyUsed (trim input), s)"
  by (simp add: invoice_modal_def)

lemma grantRole_writes:
  "grantRole og s u i r st = Inr (rep, s') \<Longrightarrow>
   verifications s' = verifications s \<and> requests s' = requests s"
  by (auto simp: grantRole_def split: option.splits if_splits)

lemma assign_writes:
  assumes "assignRoleAndPersist e s u i p st r = (rep, s')"
  shows "requests s' = requests s \<and>
     (verifications s' = verifications s \<or>
      (verifications s' = verifications s @
          [\<lparr>invoice_id = i, discord_id = u, product_id = p, role_id = r, status = st\<rparr>] \<and>
       i \<notin> set (map invoice_id (verifications s))))"
  using assms
  by (auto simp: assignRoleAndPersist_def insert_verification_def Let_def
      split: sum.splits db_error.splits if_splits dest: grantRole_writes)

lemma resolveRole_cases:
  "(\<exists>k. resolveRole e s u i p st = (NoRoleConfigured k, s)) \<or>
   (\<exists>r. resolveRole e s u i p st = assignRoleAndPersist e s u i p st r)"
  by (auto simp: resolveRole_def split: select_result.splits option.splits)

lemma tryBlock_cases:
  "(\<exists>err. tryBlock e s u i = Inl err) \<or>
   tryBlock e s u i = Inr (NotFound EmptyBody, s) \<or>
   (\<exists>t. tryBlock e s u i = Inr (NotEligible t, s)) \<or>
   (\<exists>p st. tryBlock e s u i = Inr (resolveRole e s u i p st))"
  by (auto simp: tryBlock_def bindE_def Let_def split: http_result.splits sum.splits option.splits)

lemma resolveRole_writes:
  assumes "resolveRole e s u i p st = (rep, s')"
  shows "requests s' = requests s \<and>
     (verifications s' = verifications s \<or>
      (\<exists>r. verifications s' = verifications s @
          [\<lparr>invoice_id = i, discord_id = u, product_id = p, role_id = r, status = st\<rparr>] \<and>
       i \<notin> set (map invoice_id (verifications s))))"
proof -
  from resolveRole_cases[of e s u i p st] show ?thesis
  proof (elim disjE exE)
    fix k assume "resolveRole e s u i p st = (NoRoleConfigured k, s)"
    with assms show ?thesis by simp
  next
    fix r assume "resolveRole e s u i p st = assignRoleAndPersist e s u i p st r"
    with assms have "assignRoleAndPersist e s u i p st r = (rep, s')" by simp
    from assign_writes[OF this] show ?thesis by blast
  qed
qed

lemma tryBlock_writes:
  assumes "tryBlock e s u i = Inr (rep, s')"
  shows "requests s' = requests s \<and>
     (verifications s' = verifications s \<or>
      (\<exists>row. verifications s' = verifications s @ [row] \<and> invoice_id row = i \<and>
         discord_id row = u \<and> i \<notin> set (map invoice_id (verifications s))))"
proof -
  from tryBlock_cases[of e s u i] show ?thesis
  proof (elim disjE exE)
    fix err assume "tryBlock e s u i = Inl err"
    with assms show ?thesis by simp
  next
    assume "tryBlock e s u i = Inr (NotFound EmptyBody, s)"
    with assms show ?thesis by simp
  next
    fix t assume "tryBlock e s u i = Inr (NotEligible t, s)"
    with assms show ?thesis by simp
  next
    fix p st assume "tryBlock e s u i = Inr (resolveRole e s u i p st)"
    with assms have "resolveRole e s u i p st = (rep, s')" by simp
    from resolveRole_writes[OF this] show ?thesis by auto
  qed
qed

lemma modal_writes:
  "verifications (snd (invoice_modal e s u input)) = verifications s \<or>
   (\<exists>row. verifications (snd (invoice_modal e s u input)) = verifications s @ [row] \<and>
      invoice_id row = trim input \<and> discord_id row = u \<and>
      trim input \<notin> set (map invoice_id (verifications s)))"
proof (cases "tryBlock e (s\<lparr>requests := requests s @ [trim input]\<rparr>) u (trim input)")
  case (Inl err)
  then show ?thesis
    by (simp add: invoice_modal_def Let_def split: option.splits)
next
  case (Inr r)
  obtain rep s' where r: "r = (rep, s')" by (cases r)
  from tryBlock_writes[OF Inr[unfolded r]] Inr r show ?thesis
    by (auto simp: invoice_modal_def Let_def split: option.splits)
qed

lemma assign_keeps_insert:
  "insert_verification (insert_error e) (verifications s)
     \<lparr>invoice_id = i, discord_id = u, product_id = p, role_id = r, status = st\<rparr> = Inr tbl \<Longrightarrow>
   verifications (snd (assignRoleAndPersist e s u i p st r)) = tbl"
  by (auto simp: assignRoleAndPersist_def Let_def split: sum.splits dest: grantRole_writes)

lemma prune_decision:
  assumes "pruned_at \<le> now"
  shows "fst (verify_invoice_button now (prune pruned_at m) u) = fst (verify_invoice_button now m u)"
proof (cases "m u")
  case None
  then show ?thesis by (simp add: verify_invoice_button_def prune_def Let_def)
next
  case (Some v)
  show ?thesis
  proof (cases "int pruned_at - int v > BUTTON_COOLDOWN_MS * 5")
    case True
    with assms have "int now - int v \<ge> BUTTON_COOLDOWN_MS" and "int now \<ge> BUTTON_COOLDOWN_MS"
      by (simp_all add: BUTTON_COOLDOWN_MS_def)
    with Some True show ?thesis
      by (simp add: verify_invoice_button_def prune_def Let_def)
  next
    case False
    with Some show ?thesis by (simp add: verify_invoice_button_def prune_def Let_def)
  qed
qed

lemma prune_removes_old:
  "m k = Some v \<Longrightarrow> prune pruned_at m k \<noteq> Some v \<Longrightarrow>
   prune pruned_at m k = None \<and> int pruned_at - int v > 5 * BUTTON_COOLDOWN_MS"
  by (auto simp: prune_def split: if_splits)

lemma catchBlock_replies: "catchBlock err \<in> {Unauthorized, NotFound Http404, UpstreamUnavailable}"
  by (cases err rule: catchBlock.cases) simp_all

lemma modal_fetches:
  assumes "trim input \<noteq> []" and "\<not> select_error e"
    and "trim input \<notin> set (map invoice_id (verifications s))"
  shows "invoice_modal e s u input =
     (case tryBlock e (s\<lparr>requests := requests s @ [trim input]\<rparr>) u (trim input) of
        Inl err \<Rightarrow> (catchBlock err, s\<lparr>requests := requests s @ [trim input]\<rparr>)
      | Inr r \<Rightarrow> r)"
  using assms select_none[of "verifications s" "trim input"]
  by (simp add: invoice_modal_def Let_def)

lemma trimmed_nonempty: "trimmed_string v = Some r \<Longrightarrow> r \<noteq> []"
  by (cases v) (auto split: if_splits)

lemma first_entry_nonempty:
  "first_entry_status trimmed_string xs = Some r \<Longrightarrow> r \<noteq> []"
  by (induction xs) (auto simp: bind_eq_Some_conv split: option.splits dest: trimmed_nonempty)

lemma sequence_of_Some: "sequence_of h = Some hs \<longleftrightarrow> h = JArr hs"
  by (cases h) auto

lemma first_match_nonempty:
  "first_match ps d = Some r \<Longrightarrow> (\<And>p. p \<in> set ps \<Longrightarrow> p d = Some r \<Longrightarrow> r \<noteq> []) \<Longrightarrow> r \<noteq> []"
  by (induction ps) (auto split: option.splits)

lemma rule4_nonempty: "rule4 trimmed_string k d = Some r \<Longrightarrow> r \<noteq> []"
  by (auto simp: rule4_def bind_eq_Some_conv split: option.splits dest: trimmed_nonempty)

lemma spec_extract_nonempty:
  assumes "spec_extract trimmed_string d = Some r"
  shows "r \<noteq> []"
proof (rule first_match_nonempty[OF assms[unfolded spec_extract_def]])
  fix p
  assume "p \<in> set [rule1 trimmed_string, rule2a trimmed_string, rule2b trimmed_string,
                rule2c trimmed_string, rule3 trimmed_string, rule4 trimmed_string ''state'',
                rule4 trimmed_string ''payment_status'', rule4 trimmed_string ''status_text'',
                rule5 trimmed_string]"
    and "p d = Some r"
  then consider "rule1 trimmed_string d = Some r" | "rule2a trimmed_string d = Some r"
    | "rule2b trimmed_string d = Some r" | "rule2c trimmed_string d = Some r"
    | "rule3 trimmed_string d = Some r" | "\<exists>k. rule4 trimmed_string k d = Some r"
    | "rule5 trimmed_string d = Some r"
    by auto
  then show "r \<noteq> []"
  proof cases
    case 1
    then show ?thesis by (auto simp: rule1_def bind_eq_Some_conv dest: trimmed_nonempty)
  next
    case 2
    then show ?thesis by (auto simp: rule2a_def bind_eq_Some_conv dest: trimmed_nonempty)
  next
    case 3
    then show ?thesis by (auto simp: rule2b_def bind_eq_Some_conv dest: trimmed_nonempty)
  next
    case 4
    then show ?thesis by (auto simp: rule2c_def bind_eq_Some_conv dest: first_entry_nonempty)
  next
    case 5
    then show ?thesis by (auto simp: rule3_def bind_eq_Some_conv dest: first_entry_nonempty)
  next
    case 6
    then show ?thesis by (auto dest: rule4_nonempty)
  next
    case 7
    then show ?thesis by (auto simp: rule5_def bind_eq_Some_conv dest: first_entry_nonempty)
  qed
qed

lemma extract_nonempty: "extractInvoiceStatus d = Inr (Some r) \<Longrightarrow> r \<noteq> []"
  using extract_as_probes[of d] spec_extract_nonempty[of d r] by simp

lemma upper_nonempty: "toUpperCase r = [] \<longleftrightarrow> r = []"
  by (cases r) (auto simp: toUpperCase_def upper_char_def Let_def)

lemma grantRole_not_NotEligible: "grantRole og s u i r st \<noteq> Inr (NotEligible t, s')"
  by (auto simp: grantRole_def split: option.splits if_splits)

lemma assign_not_NotEligible: "fst (assignRoleAndPersist e s u i p st r) \<noteq> NotEligible t"
  by (auto simp: assignRoleAndPersist_def Let_def grantRole_not_NotEligible
      split: sum.splits db_error.splits prod.splits)

lemma resolveRole_not_NotEligible: "fst (resolveRole e s u i p st) \<noteq> NotEligible t"
  using resolveRole_cases[of e s u i p st] assign_not_NotEligible[of e s u i p st]
  by (auto simp del: split_paired_Ex)

lemma catchBlock_not_NotEligible: "catchBlock err \<noteq> NotEligible t"
  using catchBlock_replies[of err] by auto

lemma modal_after_extract:
  assumes "trim input \<noteq> []" and "\<not> select_error e"
    and "trim input \<notin> set (map invoice_id (verifications s))"
    and "axios_get e (trim input) = Resolved body"
    and "response_invoice body = Inr invoice" and "truthy invoice"
    and "extractInvoiceStatus invoice = Inr extracted"
  shows "invoice_modal e s u input =
     (let sent = s\<lparr>requests := requests s @ [trim input]\<rparr>;
          currentStatus = normalize_status extracted
      in case currentStatus of
           None \<Rightarrow> (NotEligible (status_or_unknown currentStatus), sent)
         | Some valid \<Rightarrow>
             if not_eligible currentStatus
             then (NotEligible (status_or_unknown currentStatus), sent)
             else (case resolveProductId invoice of
                     Inl err \<Rightarrow> (catchBlock err, sent)
                   | Inr productId \<Rightarrow> resolveRole e sent u (trim input) productId valid))"
  using assms(4-7)
  by (simp add: modal_fetches[OF assms(1-3)] tryBlock_def bindE_def Let_def
      split: option.splits sum.splits)

lemma upper_examples:
  "toUpperCase ''paid'' \<in> set validStatuses \<and> toUpperCase ''PAID'' \<in> set validStatuses
   \<and> toUpperCase ''Paid'' \<in> set validStatuses"
  by code_simp

lemma grantRole_added:
  "grantRole og s u i r st = Inr (rep, s') \<Longrightarrow>
   (\<exists>r' st'. rep = Granted r' st') \<or> member_roles s' \<noteq> member_roles s \<Longrightarrow>
   rep = Granted r st
   \<and> member_roles s' = member_roles s @ [(u, r, ''Verified invoice '' @ i)]
   \<and> (\<exists>g b pos. og = Some g \<and> me g = Some b \<and> manage_roles b \<and> find_role g r = Some pos
         \<and> pos < highest_position b)"
  by (auto simp: grantRole_def split: option.splits if_splits)

lemma assign_added:
  assumes "assignRoleAndPersist e s u i p st r = (rep, s')"
    and "(\<exists>r' st'. rep = Granted r' st') \<or> member_roles s' \<noteq> member_roles s"
  shows "rep = Granted r st
     \<and> member_roles s' = member_roles s @ [(u, r, ''Verified invoice '' @ i)]
     \<and> (\<exists>g b pos. interaction_guild e = Some g \<and> me g = Some b \<and> manage_roles b
           \<and> find_role g r = Some pos \<and> pos < highest_position b)"
proof (cases "insert_verification (insert_error e) (verifications s)
     \<lparr>invoice_id = i, discord_id = u, product_id = p, role_id = r, status = st\<rparr>")
  case (Inl err)
  with assms show ?thesis
    by (cases err) (auto simp: assignRoleAndPersist_def)
next
  case (Inr tbl)
  show ?thesis
  proof (cases "grantRole (interaction_guild e) (s\<lparr>verifications := tbl\<rparr>) u i r st")
    case (Inl err)
    with Inr assms show ?thesis
      by (auto simp: assignRoleAndPersist_def Let_def)
  next
    case g: (Inr res)
    with Inr assms(1)
    have eq: "grantRole (interaction_guild e) (s\<lparr>verifications := tbl\<rparr>) u i r st = Inr (rep, s')"
      by (simp add: assignRoleAndPersist_def Let_def)
    have "(\<exists>r' st'. rep = Granted r' st')
          \<or> member_roles s' \<noteq> member_roles (s\<lparr>verifications := tbl\<rparr>)"
      using assms(2) by simp
    from grantRole_added[OF eq this] show ?thesis by simp
  qed
qed

lemma resolveRole_added:
  assumes "resolveRole e s u i p st = (rep, s')"
    and "(\<exists>r' st'. rep = Granted r' st') \<or> member_roles s' \<noteq> member_roles s"
  shows "\<exists>r. rep = Granted r st
     \<and> member_roles s' = member_roles s @ [(u, r, ''Verified invoice '' @ i)]
     \<and> (\<exists>g b pos. interaction_guild e = Some g \<and> me g = Some b \<and> manage_roles b
           \<and> find_role g r = Some pos \<and> pos < highest_position b)"
proof -
  from resolveRole_cases[of e s u i p st] show ?thesis
  proof (elim disjE exE)
    fix k assume "resolveRole e s u i p st = (NoRoleConfigured k, s)"
    with assms show ?thesis by auto
  next
    fix r assume "resolveRole e s u i p st = assignRoleAndPersist e s u i p st r"
    with assms(1) have "assignRoleAndPersist e s u i p st r = (rep, s')" by simp
    from assign_added[OF this assms(2)] show ?thesis by blast
  qed
qed

lemma tryBlock_added:
  assumes "tryBlock e s u i = Inr (rep, s')"
    and "(\<exists>r' st'. rep = Granted r' st') \<or> member_roles s' \<noteq> member_roles s"
  shows "\<exists>r st. rep = Granted r st
     \<and> member_roles s' = member_roles s @ [(u, r, ''Verified invoice '' @ i)]
     \<and> (\<exists>g b pos. interaction_guild e = Some g \<and> me g = Some b \<and> manage_roles b
           \<and> find_role g r = Some pos \<and> pos < highest_position b)"
proof -
  from tryBlock_cases[of e s u i] show ?thesis
  proof (elim disjE exE)
    fix err assume "tryBlock e s u i = Inl err"
    with assms show ?thesis by simp
  next
    assume "tryBlock e s u i = Inr (NotFound EmptyBody, s)"
    with assms show ?thesis by auto
  next
    fix t assume "tryBlock e s u i = Inr (NotEligible t, s)"
    with assms show ?thesis by auto
  next
    fix p st assume "tryBlock e s u i = Inr (resolveRole e s u i p st)"
    with assms(1) have "resolveRole e s u i p st = (rep, s')" by simp
    from resolveRole_added[OF this assms(2)] show ?thesis by blast
  qed
qed

lemma modal_added:
  assumes "(\<exists>r' st'. fst (invoice_modal e s u input) = Granted r' st') \<or>
           member_roles (snd (invoice_modal e s u input)) \<noteq> member_roles s"
  shows "\<exists>r st. fst (invoice_modal e s u input) = Granted r st
     \<and> member_roles (snd (invoice_modal e s u input)) =
         member_roles s @ [(u, r, ''Verified invoice '' @ trim input)]
     \<and> (\<exists>g b pos. interaction_guild e = Some g \<and> me g = Some b \<and> manage_roles b
           \<and> find_role g r = Some pos \<and> pos < highest_position b)"
proof (cases "tryBlock e (s\<lparr>requests := requests s @ [trim input]\<rparr>) u (trim input)")
  case (Inl err)
  with assms catchBlock_replies[of err] show ?thesis
    by (auto simp: invoice_modal_def Let_def split: option.splits if_splits)
next
  case (Inr res)
  obtain rep s' where res: "res = (rep, s')" by (cases res)
  have m: "invoice_modal e s u input = (rep, s') \<or>
           (\<forall>r st. fst (invoice_modal e s u input) \<noteq> Granted r st) \<and>
           snd (invoice_modal e s u input) = s"
    using Inr res by (auto simp: invoice_modal_def Let_def split: option.splits)
  then show ?thesis
  proof
    assume eq: "invoice_modal e s u input = (rep, s')"
    with assms have "(\<exists>r' st'. rep = Granted r' st') \<or>
        member_roles s' \<noteq> member_roles (s\<lparr>requests := requests s @ [trim input]\<rparr>)"
      by simp
    from tryBlock_added[OF Inr[unfolded res] this] eq show ?thesis by simp
  next
    assume "(\<forall>r st. fst (invoice_modal e s u input) \<noteq> Granted r st) \<and>
            snd (invoice_modal e s u input) = s"
    with assms show ?thesis by simp
  qed
qed

lemma resolveRole_chosen:
  assumes "(truthy productId \<and> role_mappings e productId = Row r \<and> r \<noteq> [])
         \<or> (default_role e = Some r
             \<and> (\<not> truthy productId \<or> role_mappings e productId = NoRow
                 \<or> role_mappings e productId = SelectError \<or> role_mappings e productId = Row []))"
  shows "resolveRole e s u i productId st = assignRoleAndPersist e s u i productId st r"
  using assms by (auto simp: resolveRole_def split: select_result.splits)

lemma assign_too_low:
  assumes "\<not> insert_error e" and "i \<notin> set (map invoice_id (verifications s))"
    and "interaction_guild e = Some g" and "has_member g u" and "me g = Some b"
    and "manage_roles b" and "find_role g r = Some pos" and "highest_position b \<le> pos"
  shows "assignRoleAndPersist e s u i p st r =
     (RoleRankTooLow,
      s\<lparr>verifications := verifications s @
          [\<lparr>invoice_id = i, discord_id = u, product_id = p, role_id = r, status = st\<rparr>]\<rparr>)"
  using assms
  by (simp add: assignRoleAndPersist_def insert_verification_def Let_def grantRole_def)

lemma modal_too_low:
  assumes "trim input \<noteq> []" and "\<not> select_error e"
    and "trim input \<notin> set (map invoice_id (verifications s))"
    and "axios_get e (trim input) = Resolved body"
    and "response_invoice body = Inr invoice" and "truthy invoice"
    and "extractInvoiceStatus invoice = Inr (Some raw)"
    and "toUpperCase raw \<in> set validStatuses"
    and "resolveProductId invoice = Inr productId"
    and "(truthy productId \<and> role_mappings e productId = Row r \<and> r \<noteq> [])
         \<or> (default_role e = Some r
             \<and> (\<not> truthy productId \<or> role_mappings e productId = NoRow
                 \<or> role_mappings e productId = SelectError \<or> role_mappings e productId = Row []))"
    and "\<not> insert_error e"
    and "interaction_guild e = Some g" and "has_member g u" and "me g = Some b"
    and "manage_roles b" and "find_role g r = Some pos" and "highest_position b \<le> pos"
  shows "invoice_modal e s u input =
     (RoleRankTooLow,
      s\<lparr>requests := requests s @ [trim input],
        verifications := verifications s @
          [\<lparr>invoice_id = trim input, discord_id = u, product_id = productId, role_id = r,
            status = toUpperCase raw\<rparr>]\<rparr>)"
proof -
  have ne: "raw \<noteq> []"
    using assms(7) by (rule extract_nonempty)
  have fresh: "trim input \<notin> set (map invoice_id (verifications (s\<lparr>requests := requests s @ [trim input]\<rparr>)))"
    using assms(3) by simp
  have "invoice_modal e s u input =
        resolveRole e (s\<lparr>requests := requests s @ [trim input]\<rparr>) u (trim input) productId
          (toUpperCase raw)"
    using modal_after_extract[OF assms(1-7), of u] ne assms(8,9)
    by (simp add: normalize_status_def not_eligible_def upper_nonempty Let_def)
  also have "\<dots> = assignRoleAndPersist e (s\<lparr>requests := requests s @ [trim input]\<rparr>) u (trim input)
                     productId (toUpperCase raw) r"
    using assms(10) by (rule resolveRole_chosen)
  also have "\<dots> = (RoleRankTooLow,
      s\<lparr>requests := requests s @ [trim input],
        verifications := verifications s @
          [\<lparr>invoice_id = trim input, discord_id = u, product_id = productId, role_id = r,
            status = toUpperCase raw\<rparr>]\<rparr>)"
    using assign_too_low[OF assms(11) fresh assms(12-17)] by simp
  finally show ?thesis .
qed

lemma select_relabelled:
  "select_verification tbl i = Some row \<Longrightarrow>
   select_verification (map (discord_id_update f) tbl) i = Some (discord_id_update f row)"
  by (induction tbl) (auto simp: select_verification_def)

section \<open>The claims about the verification workflow\<close>

text \<open>
  C4 (as amended). For a document that reaches the status check, the handler uppercases the
  extracted status and goes on to the product and the role exactly when the uppercased
  status is one of PAID, COMPLETED, FULFILLED, SUCCESS, so \<open>paid\<close>, \<open>PAID\<close> and
  \<open>Paid\<close> are all accepted; otherwise it replies \<open>NotEligible\<close> carrying the
  uppercased status, or \<open>UNKNOWN\<close> when no status was extracted.
\<close>

theorem eligibility_by_uppercased_status:
  assumes "trim input \<noteq> []" and "\<not> select_error e"
    and "trim input \<notin> set (map invoice_id (verifications s))"
    and "axios_get e (trim input) = Resolved body"
    and "response_invoice body = Inr invoice" and "truthy invoice"
    and "extractInvoiceStatus invoice = Inr extracted"
  shows "(\<forall>raw. extracted = Some raw \<and> toUpperCase raw \<in> set validStatuses \<longrightarrow>
            invoice_modal e s u input =
              (case resolveProductId invoice of
                 Inl err \<Rightarrow> (catchBlock err, s\<lparr>requests := requests s @ [trim input]\<rparr>)
               | Inr productId \<Rightarrow>
                   resolveRole e (s\<lparr>requests := requests s @ [trim input]\<rparr>) u (trim input)
                     productId (toUpperCase raw))
            \<and> (\<forall>t. fst (invoice_modal e s u input) \<noteq> NotEligible t))
       \<and> (\<forall>raw. extracted = Some raw \<and> toUpperCase raw \<notin> set validStatuses \<longrightarrow>
            invoice_modal e s u input =
              (NotEligible (toUpperCase raw), s\<lparr>requests := requests s @ [trim input]\<rparr>))
       \<and> (extracted = None \<longrightarrow>
            invoice_modal e s u input =
              (NotEligible ''UNKNOWN'', s\<lparr>requests := requests s @ [trim input]\<rparr>))
       \<and> toUpperCase ''paid'' \<in> set validStatuses \<and> toUpperCase ''PAID'' \<in> set validStatuses
       \<and> toUpperCase ''Paid'' \<in> set validStatuses"
proof -
  note m = modal_after_extract[OF assms, of u]
  have ne: "raw \<noteq> []" if "extracted = Some raw" for raw
    using that assms(7) extract_nonempty by simp
  have a: "invoice_modal e s u input =
              (case resolveProductId invoice of
                 Inl err \<Rightarrow> (catchBlock err, s\<lparr>requests := requests s @ [trim input]\<rparr>)
               | Inr productId \<Rightarrow>
                   resolveRole e (s\<lparr>requests := requests s @ [trim input]\<rparr>) u (trim input)
                     productId (toUpperCase raw))
            \<and> (\<forall>t. fst (invoice_modal e s u input) \<noteq> NotEligible t)"
    if "extracted = Some raw" and "toUpperCase raw \<in> set validStatuses" for raw
  proof -
    have eq: "invoice_modal e s u input =
              (case resolveProductId invoice of
                 Inl err \<Rightarrow> (catchBlock err, s\<lparr>requests := requests s @ [trim input]\<rparr>)
               | Inr productId \<Rightarrow>
                   resolveRole e (s\<lparr>requests := requests s @ [trim input]\<rparr>) u (trim input)
                     productId (toUpperCase raw))"
      using that ne[OF that(1)]
      by (simp add: m normalize_status_def not_eligible_def upper_nonempty Let_def)
    show ?thesis
      unfolding eq
      by (cases "resolveProductId invoice")
         (simp_all add: eq catchBlock_not_NotEligible resolveRole_not_NotEligible)
  qed
  have b: "invoice_modal e s u input =
              (NotEligible (toUpperCase raw), s\<lparr>requests := requests s @ [trim input]\<rparr>)"
    if "extracted = Some raw" and "toUpperCase raw \<notin> set validStatuses" for raw
    using that ne[OF that(1)]
    by (simp add: m normalize_status_def not_eligible_def status_or_unknown_def upper_nonempty Let_def)
  have c: "invoice_modal e s u input =
              (NotEligible ''UNKNOWN'', s\<lparr>requests := requests s @ [trim input]\<rparr>)"
    if "extracted = None"
    using that by (simp add: m normalize_status_def status_or_unknown_def Let_def)
  from a b c upper_examples show ?thesis by blast
qed

theorem eligibility_by_uppercased_status_witness:
  "extractInvoiceStatus (JObj [(''status'', JStr ''Paid'')]) = Inr (Some ''Paid'')
   \<and> toUpperCase ''Paid'' \<in> set validStatuses
   \<and> invoice_modal (sample_env (Resolved (JObj [(''status'', JStr ''Paid'')])) None)
         empty_state ''u1'' ''INV-1'' =
       (NoRoleConfigured NoProduct, empty_state\<lparr>requests := [''INV-1'']\<rparr>)
   \<and> extractInvoiceStatus pending_body = Inr (Some ''pending'')
   \<and> toUpperCase ''pending'' \<notin> set validStatuses
   \<and> invoice_modal (sample_env (Resolved pending_body) None) empty_state ''u1'' ''INV-1'' =
       (NotEligible ''PENDING'', empty_state\<lparr>requests := [''INV-1'']\<rparr>)"
proof -
  have t: "trim ''INV-1'' = ''INV-1''"
    by code_simp
  have h1: "trim ''INV-1'' \<noteq> []"
    by (simp add: t)
  have h2: "\<not> select_error (sample_env a None)" for a
    by (simp add: sample_env_def)
  have h3: "trim ''INV-1'' \<notin> set (map invoice_id (verifications empty_state))"
    by (simp add: empty_state_def)
  have h4: "axios_get (sample_env (Resolved b) None) (trim ''INV-1'') = Resolved b" for b
    by (simp add: sample_env_def)
  have p5: "response_invoice (JObj [(''status'', JStr ''Paid'')]) = Inr (JObj [(''status'', JStr ''Paid'')])"
    by code_simp
  have p6: "truthy (JObj [(''status'', JStr ''Paid'')])"
    by simp
  have p7: "extractInvoiceStatus (JObj [(''status'', JStr ''Paid'')]) = Inr (Some ''Paid'')"
    by code_simp
  have p8: "toUpperCase ''Paid'' \<in> set validStatuses"
    by code_simp
  have p9: "(case resolveProductId (JObj [(''status'', JStr ''Paid'')]) of
               Inl err \<Rightarrow> (catchBlock err, empty_state\<lparr>requests := requests empty_state @ [trim ''INV-1'']\<rparr>)
             | Inr productId \<Rightarrow>
                 resolveRole (sample_env (Resolved (JObj [(''status'', JStr ''Paid'')])) None)
                   (empty_state\<lparr>requests := requests empty_state @ [trim ''INV-1'']\<rparr>) ''u1''
                   (trim ''INV-1'') productId (toUpperCase ''Paid'')) =
            (NoRoleConfigured NoProduct, empty_state\<lparr>requests := [''INV-1'']\<rparr>)"
    by code_simp
  have q5: "response_invoice pending_body = Inr pending_body"
    by code_simp
  have q6: "truthy pending_body"
    by (simp add: pending_body_def)
  have q7: "extractInvoiceStatus pending_body = Inr (Some ''pending'')"
    by code_simp
  have q8: "toUpperCase ''pending'' \<notin> set validStatuses"
    by code_simp
  have q9: "toUpperCase ''pending'' = ''PENDING''"
    by code_simp
  have r: "requests empty_state = []"
    by (simp add: empty_state_def)
  from eligibility_by_uppercased_status[OF h1 h2 h3 h4 p5 p6 p7, of "''u1''"] p7 p8 p9
  have a: "invoice_modal (sample_env (Resolved (JObj [(''status'', JStr ''Paid'')])) None)
         empty_state ''u1'' ''INV-1'' =
       (NoRoleConfigured NoProduct, empty_state\<lparr>requests := [''INV-1'']\<rparr>)"
    by simp
  from eligibility_by_uppercased_status[OF h1 h2 h3 h4 q5 q6 q7, of "''u1''"] q7 q8
  have b: "invoice_modal (sample_env (Resolved pending_body) None) empty_state ''u1'' ''INV-1'' =
       (NotEligible ''PENDING'', empty_state\<lparr>requests := [''INV-1'']\<rparr>)"
    by (simp add: q9 t r)
  from a b p7 p8 q7 q8 show ?thesis by simp
qed

text \<open>
  C4, as the claim states it, fails in what the reply carries: for the raw status
  \<open>pending\<close> the reply carries \<open>PENDING\<close>, the uppercased status, and not the raw one.
\<close>

theorem not_eligible_carries_raw_counterexample:
  "extractInvoiceStatus pending_body = Inr (Some ''pending'')
   \<and> fst (invoice_modal (sample_env (Resolved pending_body) None) empty_state ''u1'' ''INV-1'') =
       NotEligible ''PENDING''
   \<and> fst (invoice_modal (sample_env (Resolved pending_body) None) empty_state ''u1'' ''INV-1'') \<noteq>
       NotEligible ''pending''
   \<and> content (fst (invoice_modal (sample_env (Resolved pending_body) None) empty_state ''u1''
        ''INV-1'')) = ''Invoice status is PENDING. Not eligible.''"
  by code_simp

text \<open>
  C1 (as amended). When the invoice passes the eligibility check, its product id has no row
  in the role mappings and no default verification role is configured, the handler replies
  \<open>NoRoleConfigured\<close> and no record has been inserted: the insert is made only once a role
  id is known. A retry with the same invoice id therefore sends the request and resolves
  the role again, and gets \<open>NoRoleConfigured\<close> again.
\<close>

theorem no_role_leaves_no_record:
  assumes "trim input \<noteq> []" and "\<not> select_error e"
    and "trim input \<notin> set (map invoice_id (verifications s))"
    and "axios_get e (trim input) = Resolved body"
    and "response_invoice body = Inr invoice" and "truthy invoice"
    and "extractInvoiceStatus invoice = Inr (Some raw)"
    and "toUpperCase raw \<in> set validStatuses"
    and "resolveProductId invoice = Inr productId" and "truthy productId"
    and "role_mappings e productId = NoRow" and "default_role e = None"
  shows "invoice_modal e s u input =
           (NoRoleConfigured NoMapping, s\<lparr>requests := requests s @ [trim input]\<rparr>)
       \<and> verifications (snd (invoice_modal e s u input)) = verifications s
       \<and> invoice_modal e (snd (invoice_modal e s u input)) u input =
           (NoRoleConfigured NoMapping,
            s\<lparr>requests := requests s @ [trim input] @ [trim input]\<rparr>)"
proof -
  have ne: "raw \<noteq> []"
    using assms(7) by (rule extract_nonempty)
  have step: "invoice_modal e t u input =
           (NoRoleConfigured NoMapping, t\<lparr>requests := requests t @ [trim input]\<rparr>)"
    if "verifications t = verifications s" for t
  proof -
    have "trim input \<notin> set (map invoice_id (verifications t))"
      using that assms(3) by simp
    from modal_after_extract[OF assms(1,2) this assms(4-7), of u]
    show ?thesis
      using ne assms(8-12)
      by (simp add: normalize_status_def not_eligible_def upper_nonempty resolveRole_def)
  qed
  have first: "invoice_modal e s u input =
           (NoRoleConfigured NoMapping, s\<lparr>requests := requests s @ [trim input]\<rparr>)"
    by (rule step) simp
  show ?thesis
    unfolding first by (simp add: step)
qed

theorem no_role_leaves_no_record_witness:
  "invoice_modal (sample_env (Resolved paid_body) None) empty_state ''u1'' ''INV-1'' =
     (NoRoleConfigured NoMapping, empty_state\<lparr>requests := [''INV-1'']\<rparr>)
   \<and> verifications (snd (invoice_modal (sample_env (Resolved paid_body) None) empty_state ''u1''
        ''INV-1'')) = []"
proof -
  have t: "trim ''INV-1'' = ''INV-1''"
    by code_simp
  have h1: "trim ''INV-1'' \<noteq> []"
    by (simp add: t)
  have h2: "\<not> select_error (sample_env (Resolved paid_body) None)"
    by (simp add: sample_env_def)
  have h3: "trim ''INV-1'' \<notin> set (map invoice_id (verifications empty_state))"
    by (simp add: empty_state_def)
  have h4: "axios_get (sample_env (Resolved paid_body) None) (trim ''INV-1'') = Resolved paid_body"
    by (simp add: sample_env_def)
  have h5: "response_invoice paid_body =
            Inr (JObj [(''status'', JStr ''paid''), (''product_id'', JNum 42)])"
    by code_simp
  have h6: "truthy (JObj [(''status'', JStr ''paid''), (''product_id'', JNum 42)])"
    by simp
  have h7: "extractInvoiceStatus (JObj [(''status'', JStr ''paid''), (''product_id'', JNum 42)]) =
            Inr (Some ''paid'')"
    by code_simp
  have h8: "toUpperCase ''paid'' \<in> set validStatuses"
    by code_simp
  have h9: "resolveProductId (JObj [(''status'', JStr ''paid''), (''product_id'', JNum 42)]) =
            Inr (JStr ''42'')"
    by code_simp
  have h10: "truthy (JStr ''42'')"
    by simp
  have h11: "role_mappings (sample_env (Resolved paid_body) None) (JStr ''42'') = NoRow"
    by (simp add: sample_env_def)
  have h12: "default_role (sample_env (Resolved paid_body) None) = None"
    by (simp add: sample_env_def default_role_def)
  from no_role_leaves_no_record[OF h1 h2 h3 h4 h5 h6 h7 h8 h9 h10 h11 h12, of "''u1''"]
  show ?thesis
    by (simp add: t empty_state_def)
qed

text \<open>
  C1, as the claim states it, fails: after the reply \<open>NoRoleConfigured\<close> the table of
  verifications is still empty, the lookup of the invoice id finds nothing, and the retry
  is answered \<open>NoRoleConfigured\<close> again, not \<open>AlreadyUsed\<close>.
\<close>

theorem no_role_record_counterexample:
  "fst (invoice_modal (sample_env (Resolved paid_body) None) empty_state ''u1'' ''INV-1'') =
     NoRoleConfigured NoMapping
   \<and> verifications (snd (invoice_modal (sample_env (Resolved paid_body) None) empty_state ''u1''
        ''INV-1'')) = []
   \<and> select_verification
        (verifications (snd (invoice_modal (sample_env (Resolved paid_body) None) empty_state
           ''u1'' ''INV-1''))) ''INV-1'' = None
   \<and> fst (invoice_modal (sample_env (Resolved paid_body) None)
        (snd (invoice_modal (sample_env (Resolved paid_body) None) empty_state ''u1'' ''INV-1''))
        ''u1'' ''INV-1'') = NoRoleConfigured NoMapping
   \<and> fst (invoice_modal (sample_env (Resolved paid_body) None)
        (snd (invoice_modal (sample_env (Resolved paid_body) None) empty_state ''u1'' ''INV-1''))
        ''u1'' ''INV-1'') \<noteq> AlreadyUsed ''INV-1''"
  by code_simp

text \<open>
  C6. When the trimmed invoice id is non-empty, the lookup itself succeeds and the id is
  already in the table of verifications, the handler replies \<open>AlreadyUsed\<close> and leaves the
  whole state as it was: no request to the commerce API, no insert, no role added.
\<close>

theorem dedup_no_effect:
  assumes "trim input \<noteq> []" and "\<not> select_error e"
    and "trim input \<in> set (map invoice_id (verifications s))"
  shows "invoice_modal e s u input = (AlreadyUsed (trim input), s)"
proof -
  obtain row where "select_verification (verifications s) (trim input) = Some row"
    using select_found[OF assms(3)] by blast
  with assms(1,2) show ?thesis by (rule modal_found)
qed

theorem dedup_no_effect_witness:
  "trim '' INV-1 '' \<noteq> []
   \<and> \<not> select_error (sample_env (Rejected None) (Some ''role-low''))
   \<and> trim '' INV-1 '' \<in> set (map invoice_id (verifications used_state))
   \<and> invoice_modal (sample_env (Rejected None) (Some ''role-low'')) used_state ''u2'' '' INV-1 '' =
       (AlreadyUsed ''INV-1'', used_state)"
proof -
  have t: "trim '' INV-1 '' = ''INV-1''"
    by code_simp
  have h1: "trim '' INV-1 '' \<noteq> []"
    by (simp add: t)
  have h2: "\<not> select_error (sample_env (Rejected None) (Some ''role-low''))"
    by (simp add: sample_env_def)
  have h3: "trim '' INV-1 '' \<in> set (map invoice_id (verifications used_state))"
    by (simp add: t used_state_def)
  from dedup_no_effect[OF h1 h2 h3, of "''u2''"] h1 h2 h3 show ?thesis
    by (simp add: t)
qed

text \<open>
  C10. The dedup check looks at the invoice id only. Once a row with the trimmed id is found,
  every requester gets \<open>AlreadyUsed\<close>, the account stored in that row included, and so
  does any requester when the accounts stored in the table are replaced by others; the
  text of the reply names the invoice id and says it is used by another account.
\<close>

theorem dedup_ignores_requester:
  assumes "trim input \<noteq> []" and "\<not> select_error e"
    and "select_verification (verifications s) (trim input) = Some row"
  shows "invoice_modal e s u input = (AlreadyUsed (trim input), s)
       \<and> invoice_modal e s (discord_id row) input = (AlreadyUsed (trim input), s)
       \<and> fst (invoice_modal e (s\<lparr>verifications := map (discord_id_update f) (verifications s)\<rparr>)
                u input) = AlreadyUsed (trim input)
       \<and> content (fst (invoice_modal e s u input)) =
           ''Invoice ID '' @ trim input @ '' is already used by another discord account.''"
proof -
  have a: "invoice_modal e s v input = (AlreadyUsed (trim input), s)" for v
    using assms by (rule modal_found)
  have "select_verification (map (discord_id_update f) (verifications s)) (trim input) =
        Some (discord_id_update f row)"
    using assms(3) by (rule select_relabelled)
  then have b: "fst (invoice_modal e (s\<lparr>verifications := map (discord_id_update f) (verifications s)\<rparr>)
                u input) = AlreadyUsed (trim input)"
    using assms(1,2) by (simp add: invoice_modal_def)
  from a b show ?thesis by simp
qed

theorem dedup_ignores_requester_witness:
  "select_verification (verifications used_state) (trim ''INV-1'') =
     Some \<lparr>invoice_id = ''INV-1'', discord_id = ''u1'', product_id = JStr ''42'',
           role_id = ''role-low'', status = ''PAID''\<rparr>
   \<and> fst (invoice_modal (sample_env (Resolved paid_body) None) used_state ''u1'' ''INV-1'') =
       AlreadyUsed ''INV-1''
   \<and> fst (invoice_modal (sample_env (Resolved paid_body) None) used_state ''u2'' ''INV-1'') =
       AlreadyUsed ''INV-1''
   \<and> content (fst (invoice_modal (sample_env (Resolved paid_body) None) used_state ''u1'' ''INV-1'')) =
       ''Invoice ID INV-1 is already used by another discord account.''"
proof -
  have t: "trim ''INV-1'' = ''INV-1''"
    by code_simp
  have h1: "trim ''INV-1'' \<noteq> []"
    by (simp add: t)
  have h2: "\<not> select_error (sample_env (Resolved paid_body) None)"
    by (simp add: sample_env_def)
  have h3: "select_verification (verifications used_state) (trim ''INV-1'') =
     Some \<lparr>invoice_id = ''INV-1'', discord_id = ''u1'', product_id = JStr ''42'',
           role_id = ''role-low'', status = ''PAID''\<rparr>"
    by (simp add: t used_state_def select_verification_def)
  from dedup_ignores_requester[OF h1 h2 h3, of "''u2''" id]
       dedup_ignores_requester[OF h1 h2 h3, of "''u1''" id] h3
  show ?thesis
    by (simp add: t)
qed

text \<open>
  C5. Once the request has been sent, a rejection with status 401 is answered
  \<open>Unauthorized\<close>, one with status 404 \<open>NotFound\<close>, any other rejection (another
  status, or no answer at all: network error, timeout) \<open>UpstreamUnavailable\<close>, and a
  2xx answer whose body is absent, null or empty \<open>NotFound\<close>. In each case the handler
  returns a reply, and the state holds the request and nothing else new.
\<close>

theorem fetch_failure_replies:
  assumes "trim input \<noteq> []" and "\<not> select_error e"
    and "trim input \<notin> set (map invoice_id (verifications s))"
  shows "(axios_get e (trim input) = Rejected (Some 401) \<longrightarrow>
            invoice_modal e s u input = (Unauthorized, s\<lparr>requests := requests s @ [trim input]\<rparr>))
       \<and> (axios_get e (trim input) = Rejected (Some 404) \<longrightarrow>
            invoice_modal e s u input = (NotFound Http404, s\<lparr>requests := requests s @ [trim input]\<rparr>))
       \<and> (\<forall>st. axios_get e (trim input) = Rejected st \<and> st \<noteq> Some 401 \<and> st \<noteq> Some 404 \<longrightarrow>
            invoice_modal e s u input = (UpstreamUnavailable, s\<lparr>requests := requests s @ [trim input]\<rparr>))
       \<and> (\<forall>body. axios_get e (trim input) = Resolved body \<and> (body = JUndefined \<or> body = JNull \<or> body = JStr []) \<longrightarrow>
            invoice_modal e s u input = (NotFound EmptyBody, s\<lparr>requests := requests s @ [trim input]\<rparr>))"
proof (intro conjI allI impI)
  assume "axios_get e (trim input) = Rejected (Some 401)"
  then show "invoice_modal e s u input = (Unauthorized, s\<lparr>requests := requests s @ [trim input]\<rparr>)"
    by (simp add: modal_fetches[OF assms] tryBlock_def)
next
  assume "axios_get e (trim input) = Rejected (Some 404)"
  then show "invoice_modal e s u input = (NotFound Http404, s\<lparr>requests := requests s @ [trim input]\<rparr>)"
    by (simp add: modal_fetches[OF assms] tryBlock_def)
next
  fix st
  assume "axios_get e (trim input) = Rejected st \<and> st \<noteq> Some 401 \<and> st \<noteq> Some 404"
  then show "invoice_modal e s u input = (UpstreamUnavailable, s\<lparr>requests := requests s @ [trim input]\<rparr>)"
    by (cases st) (simp_all add: modal_fetches[OF assms] tryBlock_def)
next
  fix body
  assume "axios_get e (trim input) = Resolved body \<and> (body = JUndefined \<or> body = JNull \<or> body = JStr [])"
  then show "invoice_modal e s u input = (NotFound EmptyBody, s\<lparr>requests := requests s @ [trim input]\<rparr>)"
    by (auto simp: modal_fetches[OF assms] tryBlock_def response_invoice_def bindE_def)
qed

theorem fetch_failure_replies_witness:
  "fst (invoice_modal (sample_env (Rejected (Some 401)) None) empty_state ''u1'' ''INV-1'') =
     Unauthorized
   \<and> fst (invoice_modal (sample_env (Rejected (Some 404)) None) empty_state ''u1'' ''INV-1'') =
     NotFound Http404
   \<and> fst (invoice_modal (sample_env (Rejected (Some 503)) None) empty_state ''u1'' ''INV-1'') =
     UpstreamUnavailable
   \<and> fst (invoice_modal (sample_env (Rejected None) None) empty_state ''u1'' ''INV-1'') =
     UpstreamUnavailable
   \<and> fst (invoice_modal (sample_env (Resolved (JStr [])) None) empty_state ''u1'' ''INV-1'') =
     NotFound EmptyBody"
proof -
  have t: "trim ''INV-1'' = ''INV-1''"
    by code_simp
  have h1: "trim ''INV-1'' \<noteq> []"
    by (simp add: t)
  have h2: "\<not> select_error (sample_env a None)" for a
    by (simp add: sample_env_def)
  have h3: "trim ''INV-1'' \<notin> set (map invoice_id (verifications empty_state))"
    by (simp add: empty_state_def)
  have g: "axios_get (sample_env a None) i = a" for a i
    by (simp add: sample_env_def)
  from fetch_failure_replies[OF h1 h2 h3, of "Rejected (Some 401)" "''u1''"]
       fetch_failure_replies[OF h1 h2 h3, of "Rejected (Some 404)" "''u1''"]
       fetch_failure_replies[OF h1 h2 h3, of "Rejected (Some 503)" "''u1''"]
       fetch_failure_replies[OF h1 h2 h3, of "Rejected None" "''u1''"]
       fetch_failure_replies[OF h1 h2 h3, of "Resolved (JStr [])" "''u1''"]
  show ?thesis
    by (simp add: g)
qed

text \<open>
  C7. The handler never updates or deletes a record. After any attempt the table of
  verifications is the table before, or the table before with one row appended for the
  trimmed invoice id and the requester, and only if that id was not in the table; so the
  invoice ids stay distinct. And once the insert has succeeded, the table it produced is
  the table at the end of the attempt, whatever the grant of the role runs into (member
  not found, missing permission, missing role, rank too low, a rejected call).
\<close>

theorem records_only_inserted:
  "(verifications (snd (invoice_modal e s u input)) = verifications s
    \<or> (\<exists>row. verifications (snd (invoice_modal e s u input)) = verifications s @ [row]
          \<and> invoice_id row = trim input \<and> discord_id row = u
          \<and> trim input \<notin> set (map invoice_id (verifications s))))
   \<and> (distinct (map invoice_id (verifications s)) \<longrightarrow>
        distinct (map invoice_id (verifications (snd (invoice_modal e s u input)))))
   \<and> (\<forall>tbl. insert_verification (insert_error e) (verifications s)
               \<lparr>invoice_id = i, discord_id = u, product_id = p, role_id = r, status = st\<rparr> =
             Inr tbl \<longrightarrow>
           verifications (snd (assignRoleAndPersist e s u i p st r)) = tbl)"
proof (intro conjI allI impI)
  show w: "verifications (snd (invoice_modal e s u input)) = verifications s
    \<or> (\<exists>row. verifications (snd (invoice_modal e s u input)) = verifications s @ [row]
          \<and> invoice_id row = trim input \<and> discord_id row = u
          \<and> trim input \<notin> set (map invoice_id (verifications s)))"
    by (rule modal_writes)
  show "distinct (map invoice_id (verifications (snd (invoice_modal e s u input))))"
    if "distinct (map invoice_id (verifications s))"
    using w that by auto
  show "verifications (snd (assignRoleAndPersist e s u i p st r)) = tbl"
    if "insert_verification (insert_error e) (verifications s)
               \<lparr>invoice_id = i, discord_id = u, product_id = p, role_id = r, status = st\<rparr> =
             Inr tbl" for tbl
    using that by (rule assign_keeps_insert)
qed

theorem records_only_inserted_witness:
  "distinct (map invoice_id (verifications empty_state))
   \<and> insert_verification (insert_error (sample_env (Resolved paid_body) (Some ''role-top'')))
        (verifications empty_state)
        \<lparr>invoice_id = ''INV-1'', discord_id = ''u1'', product_id = JStr ''42'',
         role_id = ''role-top'', status = ''PAID''\<rparr> =
       Inr [\<lparr>invoice_id = ''INV-1'', discord_id = ''u1'', product_id = JStr ''42'',
             role_id = ''role-top'', status = ''PAID''\<rparr>]
   \<and> fst (assignRoleAndPersist (sample_env (Resolved paid_body) (Some ''role-top'')) empty_state
        ''u1'' ''INV-1'' (JStr ''42'') ''PAID'' ''role-top'') = RoleRankTooLow
   \<and> verifications (snd (assignRoleAndPersist (sample_env (Resolved paid_body) (Some ''role-top''))
        empty_state ''u1'' ''INV-1'' (JStr ''42'') ''PAID'' ''role-top'')) =
       [\<lparr>invoice_id = ''INV-1'', discord_id = ''u1'', product_id = JStr ''42'',
         role_id = ''role-top'', status = ''PAID''\<rparr>]
   \<and> distinct (map invoice_id (verifications (snd (invoice_modal
        (sample_env (Resolved paid_body) (Some ''role-top'')) empty_state ''u1'' ''INV-1''))))"
proof -
  have h1: "distinct (map invoice_id (verifications empty_state))"
    by (simp add: empty_state_def)
  have h2: "insert_verification (insert_error (sample_env (Resolved paid_body) (Some ''role-top'')))
        (verifications empty_state)
        \<lparr>invoice_id = ''INV-1'', discord_id = ''u1'', product_id = JStr ''42'',
         role_id = ''role-top'', status = ''PAID''\<rparr> =
       Inr [\<lparr>invoice_id = ''INV-1'', discord_id = ''u1'', product_id = JStr ''42'',
             role_id = ''role-top'', status = ''PAID''\<rparr>]"
    by (simp add: insert_verification_def sample_env_def empty_state_def)
  have h3: "fst (assignRoleAndPersist (sample_env (Resolved paid_body) (Some ''role-top'')) empty_state
        ''u1'' ''INV-1'' (JStr ''42'') ''PAID'' ''role-top'') = RoleRankTooLow"
    by code_simp
  from records_only_inserted[of "sample_env (Resolved paid_body) (Some ''role-top'')" empty_state
         "''u1''" "''INV-1''" "''INV-1''" "JStr ''42''" "''role-top''" "''PAID''"] h1 h2 h3
  show ?thesis by simp
qed

text \<open>
  C8 (as amended). A role is granted only by an actor ranked strictly above it, whatever
  else the actor is permitted. Whenever the handler replies \<open>Granted\<close> for a role, the
  bot's highest role is at a position strictly above the position of that very role, and
  that role is the one added, to the requester, with the invoice id as the reason; when
  the reply is anything else no role is added. So when the bot's highest role is at the
  same position as a role or below it, the handler never replies \<open>Granted\<close> for that
  role and never adds it. The reply is \<open>RoleRankTooLow\<close> when the attempt reaches the
  comparison of the ranks: the record was inserted, the member was found, the bot holds
  Manage Roles and the role exists; the checks before it are answered first.
\<close>

theorem grant_only_above_rank:
  "(\<forall>r st. fst (invoice_modal e s u input) = Granted r st \<longrightarrow>
       (\<exists>g b pos. interaction_guild e = Some g \<and> me g = Some b \<and> find_role g r = Some pos
           \<and> pos < highest_position b)
       \<and> member_roles (snd (invoice_modal e s u input)) =
           member_roles s @ [(u, r, ''Verified invoice '' @ trim input)])
   \<and> ((\<forall>r st. fst (invoice_modal e s u input) \<noteq> Granted r st) \<longrightarrow>
        member_roles (snd (invoice_modal e s u input)) = member_roles s)
   \<and> (\<forall>g b r pos. interaction_guild e = Some g \<and> me g = Some b \<and> find_role g r = Some pos
          \<and> highest_position b \<le> pos \<longrightarrow>
        (\<forall>st. fst (invoice_modal e s u input) \<noteq> Granted r st)
        \<and> (\<forall>a reason. (a, r, reason) \<in> set (member_roles (snd (invoice_modal e s u input))) \<longrightarrow>
              (a, r, reason) \<in> set (member_roles s)))
   \<and> (trim input \<noteq> [] \<and> \<not> select_error e
        \<and> trim input \<notin> set (map invoice_id (verifications s))
        \<and> axios_get e (trim input) = Resolved body
        \<and> response_invoice body = Inr invoice \<and> truthy invoice
        \<and> extractInvoiceStatus invoice = Inr (Some raw)
        \<and> toUpperCase raw \<in> set validStatuses
        \<and> resolveProductId invoice = Inr productId
        \<and> ((truthy productId \<and> role_mappings e productId = Row rl \<and> rl \<noteq> [])
           \<or> (default_role e = Some rl
               \<and> (\<not> truthy productId \<or> role_mappings e productId = NoRow
                   \<or> role_mappings e productId = SelectError
                   \<or> role_mappings e productId = Row [])))
        \<and> \<not> insert_error e
        \<and> interaction_guild e = Some gd \<and> has_member gd u \<and> me gd = Some bm
        \<and> manage_roles bm \<and> find_role gd rl = Some ps
        \<and> highest_position bm \<le> ps \<longrightarrow>
      invoice_modal e s u input =
        (RoleRankTooLow,
         s\<lparr>requests := requests s @ [trim input],
           verifications := verifications s @
             [\<lparr>invoice_id = trim input, discord_id = u, product_id = productId, role_id = rl,
               status = toUpperCase raw\<rparr>]\<rparr>))"
proof (intro conjI allI impI)
  fix r st
  assume g: "fst (invoice_modal e s u input) = Granted r st"
  then have "(\<exists>r' st'. fst (invoice_modal e s u input) = Granted r' st') \<or>
           member_roles (snd (invoice_modal e s u input)) \<noteq> member_roles s"
    by blast
  from modal_added[OF this] g
  show "\<exists>g b pos. interaction_guild e = Some g \<and> me g = Some b \<and> find_role g r = Some pos
           \<and> pos < highest_position b"
    and "member_roles (snd (invoice_modal e s u input)) =
           member_roles s @ [(u, r, ''Verified invoice '' @ trim input)]"
    by auto
next
  assume "\<forall>r st. fst (invoice_modal e s u input) \<noteq> Granted r st"
  with modal_added[of e s u input]
  show "member_roles (snd (invoice_modal e s u input)) = member_roles s"
    by blast
next
  fix g b r pos st
  assume low: "interaction_guild e = Some g \<and> me g = Some b \<and> find_role g r = Some pos
          \<and> highest_position b \<le> pos"
  show "fst (invoice_modal e s u input) \<noteq> Granted r st"
  proof
    assume g: "fst (invoice_modal e s u input) = Granted r st"
    then have "(\<exists>r' st'. fst (invoice_modal e s u input) = Granted r' st') \<or>
           member_roles (snd (invoice_modal e s u input)) \<noteq> member_roles s"
      by blast
    from modal_added[OF this] g low show False by auto
  qed
next
  fix g b r pos a reason
  assume low: "interaction_guild e = Some g \<and> me g = Some b \<and> find_role g r = Some pos
          \<and> highest_position b \<le> pos"
    and mem: "(a, r, reason) \<in> set (member_roles (snd (invoice_modal e s u input)))"
  show "(a, r, reason) \<in> set (member_roles s)"
  proof (cases "member_roles (snd (invoice_modal e s u input)) = member_roles s")
    case True
    with mem show ?thesis by simp
  next
    case False
    then have "(\<exists>r' st'. fst (invoice_modal e s u input) = Granted r' st') \<or>
           member_roles (snd (invoice_modal e s u input)) \<noteq> member_roles s"
      by blast
    from modal_added[OF this] low mem show ?thesis by auto
  qed
next
  assume "trim input \<noteq> [] \<and> \<not> select_error e
        \<and> trim input \<notin> set (map invoice_id (verifications s))
        \<and> axios_get e (trim input) = Resolved body
        \<and> response_invoice body = Inr invoice \<and> truthy invoice
        \<and> extractInvoiceStatus invoice = Inr (Some raw)
        \<and> toUpperCase raw \<in> set validStatuses
        \<and> resolveProductId invoice = Inr productId
        \<and> ((truthy productId \<and> role_mappings e productId = Row rl \<and> rl \<noteq> [])
           \<or> (default_role e = Some rl
               \<and> (\<not> truthy productId \<or> role_mappings e productId = NoRow
                   \<or> role_mappings e productId = SelectError
                   \<or> role_mappings e productId = Row [])))
        \<and> \<not> insert_error e
        \<and> interaction_guild e = Some gd \<and> has_member gd u \<and> me gd = Some bm
        \<and> manage_roles bm \<and> find_role gd rl = Some ps
        \<and> highest_position bm \<le> ps"
  then show "invoice_modal e s u input =
        (RoleRankTooLow,
         s\<lparr>requests := requests s @ [trim input],
           verifications := verifications s @
             [\<lparr>invoice_id = trim input, discord_id = u, product_id = productId, role_id = rl,
               status = toUpperCase raw\<rparr>]\<rparr>)"
    by (intro modal_too_low) blast+
qed

theorem grant_only_above_rank_witness:
  "invoice_modal (sample_env (Resolved paid_body) (Some ''role-top'')) empty_state ''u1'' ''INV-1'' =
     (RoleRankTooLow,
      \<lparr>verifications =
         [\<lparr>invoice_id = ''INV-1'', discord_id = ''u1'', product_id = JStr ''42'',
           role_id = ''role-top'', status = ''PAID''\<rparr>],
       requests = [''INV-1''], member_roles = []\<rparr>)
   \<and> me sample_guild = Some \<lparr>manage_roles = True, highest_position = 5\<rparr>
   \<and> find_role sample_guild ''role-top'' = Some 5
   \<and> find_role sample_guild ''role-low'' = Some 3
   \<and> fst (invoice_modal (sample_env (Resolved paid_body) (Some ''role-low'')) empty_state ''u1''
        ''INV-1'') = Granted ''role-low'' ''PAID''
   \<and> member_roles (snd (invoice_modal (sample_env (Resolved paid_body) (Some ''role-low''))
        empty_state ''u1'' ''INV-1'')) = [(''u1'', ''role-low'', ''Verified invoice INV-1'')]"
proof -
  let ?top = "sample_env (Resolved paid_body) (Some ''role-top'')"
  let ?low = "sample_env (Resolved paid_body) (Some ''role-low'')"
  let ?inv = "JObj [(''status'', JStr ''paid''), (''product_id'', JNum 42)]"
  have t: "trim ''INV-1'' = ''INV-1''"
    by code_simp
  have up: "toUpperCase ''paid'' = ''PAID''"
    by code_simp
  have h1: "trim ''INV-1'' \<noteq> []"
    by (simp add: t)
  have h2: "\<not> select_error ?top"
    by (simp add: sample_env_def)
  have h3: "trim ''INV-1'' \<notin> set (map invoice_id (verifications empty_state))"
    by (simp add: empty_state_def)
  have h4: "axios_get ?top (trim ''INV-1'') = Resolved paid_body"
    by (simp add: sample_env_def)
  have h5: "response_invoice paid_body = Inr ?inv"
    by code_simp
  have h6: "truthy ?inv"
    by simp
  have h7: "extractInvoiceStatus ?inv = Inr (Some ''paid'')"
    by code_simp
  have h8: "toUpperCase ''paid'' \<in> set validStatuses"
    by code_simp
  have h9: "resolveProductId ?inv = Inr (JStr ''42'')"
    by code_simp
  have h10: "default_role ?top = Some ''role-top''"
    by (simp add: sample_env_def default_role_def)
  have h11: "role_mappings ?top (JStr ''42'') = NoRow"
    by (simp add: sample_env_def)
  have h12: "\<not> insert_error ?top"
    by (simp add: sample_env_def)
  have h13: "interaction_guild ?top = Some sample_guild"
    by (simp add: sample_env_def)
  have h14: "has_member sample_guild ''u1''"
    by (simp add: sample_guild_def)
  have h15: "me sample_guild = Some \<lparr>manage_roles = True, highest_position = 5\<rparr>"
    by (simp add: sample_guild_def)
  have h16: "find_role sample_guild ''role-top'' = Some 5"
    by code_simp
  have h17: "find_role sample_guild ''role-low'' = Some 3"
    by code_simp
  have g: "fst (invoice_modal ?low empty_state ''u1'' ''INV-1'') = Granted ''role-low'' ''PAID''"
    by code_simp
  have a: "invoice_modal ?top empty_state ''u1'' ''INV-1'' =
     (RoleRankTooLow,
      \<lparr>verifications =
         [\<lparr>invoice_id = ''INV-1'', discord_id = ''u1'', product_id = JStr ''42'',
           role_id = ''role-top'', status = ''PAID''\<rparr>],
       requests = [''INV-1''], member_roles = []\<rparr>)"
    using grant_only_above_rank[where e = ?top and s = empty_state and u = "''u1''"
        and input = "''INV-1''" and body = paid_body and invoice = ?inv and raw = "''paid''"
        and productId = "JStr ''42''" and rl = "''role-top''" and gd = sample_guild
        and bm = "\<lparr>manage_roles = True, highest_position = 5\<rparr>" and ps = 5]
      h1 h2 h3 h4 h5 h6 h7 h8 h9 h10 h11 h12 h13 h14 h15 h16
    by (simp add: t up empty_state_def)
  have b: "member_roles (snd (invoice_modal ?low empty_state ''u1'' ''INV-1'')) =
           [(''u1'', ''role-low'', ''Verified invoice INV-1'')]"
    using grant_only_above_rank[where e = ?low and s = empty_state and u = "''u1''"
        and input = "''INV-1''"] g
    by (simp add: t empty_state_def)
  from a b g h15 h16 h17 show ?thesis by simp
qed

text \<open>
  C8, as the claim states it, fails in the reply: with the bot's highest role at the same
  position as the role to grant and the bot not holding Manage Roles, the handler replies
  \<open>InsufficientPermission\<close>, not \<open>RoleRankTooLow\<close> (and adds no role).
\<close>

theorem rank_too_low_reply_counterexample:
  "me unprivileged_guild = Some \<lparr>manage_roles = False, highest_position = 5\<rparr>
   \<and> find_role unprivileged_guild ''role-top'' = Some 5
   \<and> invoice_modal
        ((sample_env (Resolved paid_body) (Some ''role-top''))
           \<lparr>interaction_guild := Some unprivileged_guild\<rparr>)
        empty_state ''u1'' ''INV-1'' =
       (InsufficientPermission,
        \<lparr>verifications =
           [\<lparr>invoice_id = ''INV-1'', discord_id = ''u1'', product_id = JStr ''42'',
             role_id = ''role-top'', status = ''PAID''\<rparr>],
         requests = [''INV-1''], member_roles = []\<rparr>)
   \<and> fst (invoice_modal
        ((sample_env (Resolved paid_body) (Some ''role-top''))
           \<lparr>interaction_guild := Some unprivileged_guild\<rparr>)
        empty_state ''u1'' ''INV-1'') \<noteq> RoleRankTooLow"
  by code_simp

text \<open>
  C9. Pruning the cooldown map does not change the decision of the cooldown check: for
  every account and every time of the check that is not before the time of the pruning,
  the reply on the pruned map is the reply on the map as it was (the same wait, or the
  modal). Pruning removes an entry only when its age at the pruning exceeds five times
  the cooldown window.
\<close>

theorem prune_keeps_decision:
  assumes "pruned_at \<le> now"
  shows "fst (verify_invoice_button now (prune pruned_at m) u) = fst (verify_invoice_button now m u)
       \<and> (\<forall>k v. m k = Some v \<and> prune pruned_at m k \<noteq> Some v \<longrightarrow>
             prune pruned_at m k = None \<and> int pruned_at - int v > 5 * BUTTON_COOLDOWN_MS)"
  using prune_decision[OF assms] prune_removes_old by blast

theorem prune_keeps_decision_witness:
  "(100000::nat) \<le> 100000
   \<and> prune 100000 [''u1'' \<mapsto> 1000, ''u2'' \<mapsto> 90000] ''u1'' = None
   \<and> prune 100000 [''u1'' \<mapsto> 1000, ''u2'' \<mapsto> 90000] ''u2'' = Some 90000
   \<and> fst (verify_invoice_button 100000 (prune 100000 [''u1'' \<mapsto> 1000, ''u2'' \<mapsto> 90000]) ''u1'') =
       ShowModal
   \<and> fst (verify_invoice_button 100000 [''u1'' \<mapsto> 1000, ''u2'' \<mapsto> 90000] ''u1'') = ShowModal
   \<and> fst (verify_invoice_button 100000 (prune 100000 [''u1'' \<mapsto> 1000, ''u2'' \<mapsto> 90000]) ''u2'') =
       PleaseWait 5"
proof -
  have h: "(100000::nat) \<le> 100000"
    by simp
  have a: "prune 100000 [''u1'' \<mapsto> 1000, ''u2'' \<mapsto> 90000] ''u1'' = None"
    by (simp add: prune_def BUTTON_COOLDOWN_MS_def)
  have b: "prune 100000 [''u1'' \<mapsto> 1000, ''u2'' \<mapsto> 90000] ''u2'' = Some 90000"
    by (simp add: prune_def BUTTON_COOLDOWN_MS_def)
  have c: "fst (verify_invoice_button 100000 [''u1'' \<mapsto> 1000, ''u2'' \<mapsto> 90000] ''u1'') = ShowModal"
    by (simp add: verify_invoice_button_def BUTTON_COOLDOWN_MS_def)
  have d: "fst (verify_invoice_button 100000 [''u1'' \<mapsto> 1000, ''u2'' \<mapsto> 90000] ''u2'') = PleaseWait 5"
    by (simp add: verify_invoice_button_def BUTTON_COOLDOWN_MS_def)
  from prune_keeps_decision[OF h, of "[''u1'' \<mapsto> 1000, ''u2'' \<mapsto> 90000]" "''u1''"]
       prune_keeps_decision[OF h, of "[''u1'' \<mapsto> 1000, ''u2'' \<mapsto> 90000]" "''u2''"] a b c d
  show ?thesis by simp
qed

end
